theory Spec2Isabelle
  imports Complex_Main
begin

section \<open>Export pipeline: geometry of the exported document\<close>

text \<open>
  JavaScript numbers are modelled as exact reals: the arithmetic of the source is kept
  term by term, rounding of doubles is not modelled.  The inlined style block and the
  XML serialisation do not touch the geometry and are left out of the document model.
\<close>

type_synonym point = "real \<times> real"

text \<open>The value of \<open>getBBox()\<close> on the live content group.\<close>

record bbox =
  bbox_x :: real
  bbox_y :: real
  bbox_width :: real
  bbox_height :: real

text \<open>The \<open>transform\<close> attribute written on the content group of the clone.\<close>

datatype transform_attr =
  Translate real real
| TranslateScale real real real

fun apply_transform :: "transform_attr \<Rightarrow> point \<Rightarrow> point" where
  "apply_transform (Translate tx ty) (px, py) = (px + tx, py + ty)"
| "apply_transform (TranslateScale tx ty s) (px, py) = (s * px + tx, s * py + ty)"

text \<open>
  The cloned \<open>svg\<close> element: its \<open>width\<close> and \<open>height\<close> attributes and the
  transform of its first \<open>g\<close> child (\<open>svg_group = None\<close>: \<open>querySelector('g')\<close> finds
  nothing; \<open>Some None\<close>: a group that carries no transform yet).
\<close>

record svg_element =
  svg_width :: "real option"
  svg_height :: "real option"
  svg_group :: "transform_attr option option"

definition padding :: real where
  "padding = 20"

text \<open>\<open>getSVGString\<close>: \<open>None\<close> is the source's \<open>return null\<close>.\<close>

definition getSVGString :: "svg_element option \<Rightarrow> bbox option \<Rightarrow> svg_element option" where
  "getSVGString svgRef svgGroupRef =
     (case svgRef of
        None \<Rightarrow> None
      | Some svgElement \<Rightarrow>
          (case svgGroupRef of
             None \<Rightarrow> None
           | Some b \<Rightarrow>
               (case svg_group svgElement of
                  None \<Rightarrow> None
                | Some g \<Rightarrow>
                    Some (svgElement
                      \<lparr> svg_width := Some (bbox_width b + padding * 2),
                        svg_height := Some (bbox_height b + padding * 2),
                        svg_group := Some (Some (Translate (- bbox_x b + padding) (- bbox_y b + padding))) \<rparr>))))"

text \<open>
  \<open>createCanvasFromSVG\<close>.  The promise rejects (\<open>Inl\<close>) when the clone has no group,
  when the image fails to load or when no 2d context is available; the last two are
  answers of the browser and are parameters here.  Assigning a number to
  \<open>canvas.width\<close> or \<open>canvas.height\<close> converts it to an unsigned long, and a
  value above 2147483647 is replaced by the attribute's default, 300 for the
  width and 150 for the height.
\<close>

record browser =
  image_loads :: bool
  has_2d_context :: bool

record canvas =
  canvas_width :: nat
  canvas_height :: nat

record raster =
  raster_doc :: svg_element
  raster_canvas :: canvas

definition to_unsigned_long :: "real \<Rightarrow> nat" where
  "to_unsigned_long v = nat ((if 0 \<le> v then \<lfloor>v\<rfloor> else \<lceil>v\<rceil>) mod 2 ^ 32)"

definition canvas_dimension :: "nat \<Rightarrow> real \<Rightarrow> nat" where
  "canvas_dimension dflt v =
     (if to_unsigned_long v > 2147483647 then dflt else to_unsigned_long v)"

definition createCanvasFromSVG ::
  "browser \<Rightarrow> svg_element \<Rightarrow> bbox \<Rightarrow> real \<Rightarrow> string + raster" where
  "createCanvasFromSVG env svgElement b scale =
     (case svg_group svgElement of
        None \<Rightarrow> Inl ''SVG group not found''
      | Some g \<Rightarrow>
          (let canvasWidth = (bbox_width b + padding * 2) * scale;
               canvasHeight = (bbox_height b + padding * 2) * scale;
               clonedSvg = svgElement
                 \<lparr> svg_width := Some canvasWidth,
                   svg_height := Some canvasHeight,
                   svg_group := Some (Some (TranslateScale
                      ((- bbox_x b + padding) * scale) ((- bbox_y b + padding) * scale) scale)) \<rparr>
           in if \<not> image_loads env then Inl ''Image failed to load from SVG data URL''
              else if \<not> has_2d_context env then Inl ''Could not get canvas context''
              else Inr \<lparr> raster_doc = clonedSvg,
                         raster_canvas = \<lparr> canvas_width = canvas_dimension 300 canvasWidth,
                                            canvas_height = canvas_dimension 150 canvasHeight \<rparr> \<rparr>))"

text \<open>
  The document that \<open>createCanvasFromSVG\<close> serialises, before the image is decoded
  (the source's lines up to the \<open>transform\<close> attribute).
\<close>

definition raster_document :: "svg_element \<Rightarrow> bbox \<Rightarrow> real \<Rightarrow> svg_element option" where
  "raster_document svgElement b scale =
     (case createCanvasFromSVG \<lparr> image_loads = True, has_2d_context = True \<rparr> svgElement b scale of
        Inl e \<Rightarrow> None
      | Inr r \<Rightarrow> Some (raster_doc r))"

section \<open>Export pipeline: PDF placement\<close>

datatype orientation = Landscape | Portrait

record pdf_doc =
  pdf_orientation :: orientation
  pdf_page_width :: real
  pdf_page_height :: real
  pdf_image_x :: real
  pdf_image_y :: real
  pdf_image_width :: real
  pdf_image_height :: real
  pdf_filename :: string

definition PADDING_MM :: real where "PADDING_MM = 10"
definition A4_WIDTH_MM :: real where "A4_WIDTH_MM = 210"
definition A4_HEIGHT_MM :: real where "A4_HEIGHT_MM = 297"

text \<open>
  The \<open>fitToA4\<close> branch of \<open>handleExportPDF\<close>, on the canvas's width and height.
  For a height of 0 the source's division gives \<open>Infinity\<close> or \<open>NaN\<close>, which a real
  does not represent.
\<close>

definition fit_to_a4 :: "real \<Rightarrow> real \<Rightarrow> pdf_doc" where
  "fit_to_a4 cw ch =
     (let canvasAspectRatio = cw / ch;
          isLandscape = canvasAspectRatio > 1;
          pageWidth = (if isLandscape then A4_HEIGHT_MM else A4_WIDTH_MM);
          pageHeight = (if isLandscape then A4_WIDTH_MM else A4_HEIGHT_MM);
          usableWidth = pageWidth - PADDING_MM * 2;
          usableHeight = pageHeight - PADDING_MM * 2;
          imgWidth0 = usableWidth;
          imgHeight0 = imgWidth0 / canvasAspectRatio;
          imgHeight = (if imgHeight0 > usableHeight then usableHeight else imgHeight0);
          imgWidth = (if imgHeight0 > usableHeight then imgHeight * canvasAspectRatio else imgWidth0)
      in \<lparr> pdf_orientation = (if isLandscape then Landscape else Portrait),
           pdf_page_width = pageWidth,
           pdf_page_height = pageHeight,
           pdf_image_x = (pageWidth - imgWidth) / 2,
           pdf_image_y = (pageHeight - imgHeight) / 2,
           pdf_image_width = imgWidth,
           pdf_image_height = imgHeight,
           pdf_filename = ''flowchart-a4.pdf'' \<rparr>)"

text \<open>The other branch: a page of the canvas's own size, the image at the origin.\<close>

definition native_size :: "real \<Rightarrow> real \<Rightarrow> pdf_doc" where
  "native_size cw ch =
     \<lparr> pdf_orientation = (if cw > ch then Landscape else Portrait),
       pdf_page_width = cw,
       pdf_page_height = ch,
       pdf_image_x = 0,
       pdf_image_y = 0,
       pdf_image_width = cw,
       pdf_image_height = ch,
       pdf_filename = ''flowchart.pdf'' \<rparr>"

text \<open>
  \<open>handleExportPDF\<close>: \<open>None\<close> when a ref is missing or the rasterisation rejects (the
  error is only logged), otherwise the saved document.
\<close>

definition handleExportPDF ::
  "browser \<Rightarrow> bool \<Rightarrow> svg_element option \<Rightarrow> bbox option \<Rightarrow> pdf_doc option" where
  "handleExportPDF env fitToA4 svgRef svgGroupRef =
     (case svgRef of
        None \<Rightarrow> None
      | Some svgElement \<Rightarrow>
          (case svgGroupRef of
             None \<Rightarrow> None
           | Some b \<Rightarrow>
               (case createCanvasFromSVG env svgElement b 2 of
                  Inl e \<Rightarrow> None
                | Inr r \<Rightarrow>
                    (let cw = real (canvas_width (raster_canvas r));
                         ch = real (canvas_height (raster_canvas r))
                     in Some (if fitToA4 then fit_to_a4 cw ch else native_size cw ch)))))"

section \<open>Style state\<close>

text \<open>
  \<open>NodeStyle\<close> has five properties; a value is a string or a number, and \<open>parseInt\<close>
  can make the number \<open>NaN\<close>.
\<close>

datatype style_key = color1 | color2 | stroke | textColor | fontSize

datatype jsvalue = Str string | Num real | NaN

text \<open>
  An object literal \<open>{...o, [k]: v}\<close> copies the own properties of \<open>o\<close> in order and
  then assigns \<open>k\<close>: an existing key keeps its place, a new key goes last.
  (JavaScript enumerates integer-like keys first; the enumeration order plays no role
  in what is proved below.)
\<close>

fun set_prop :: "'k \<Rightarrow> 'v \<Rightarrow> ('k \<times> 'v) list \<Rightarrow> ('k \<times> 'v) list" where
  "set_prop k v [] = [(k, v)]"
| "set_prop k v ((k', v') # ps) =
     (if k' = k then (k, v) # ps else (k', v') # set_prop k v ps)"

text \<open>
  The style objects live in a store, because the React state holds a reference: the
  initial state and the state after a reset are the object \<open>defaultNodeStyles\<close> itself,
  and an updated \<open>NodeStyles\<close> object shares the untouched \<open>NodeStyle\<close> objects with its
  predecessor.  \<open>style_objs\<close> are the \<open>NodeStyle\<close> objects by address, \<open>styles_objs\<close> the
  \<open>NodeStyles\<close> objects by address (node type to address of its \<open>NodeStyle\<close>), and
  \<open>customNodeStyles\<close> is the address held by the state.
\<close>

record style_state =
  style_objs :: "(style_key \<times> jsvalue) list list"
  styles_objs :: "(string \<times> nat) list list"
  customNodeStyles :: nat

definition style_at :: "style_state \<Rightarrow> nat \<Rightarrow> (style_key \<times> jsvalue) list" where
  "style_at s a = (if a < length (style_objs s) then style_objs s ! a else [])"

definition styles_at :: "style_state \<Rightarrow> nat \<Rightarrow> (string \<times> nat) list" where
  "styles_at s a = (if a < length (styles_objs s) then styles_objs s ! a else [])"

definition default_style :: "string \<Rightarrow> string \<Rightarrow> string \<Rightarrow> (style_key \<times> jsvalue) list" where
  "default_style c1 c2 st =
     [(color1, Str c1), (color2, Str c2), (stroke, Str st),
      (textColor, Str ''#ffffff''), (fontSize, Num 14)]"

text \<open>The module constant \<open>defaultNodeStyles\<close>: address 0 of \<open>styles_objs\<close>.\<close>

definition defaultNodeStyles :: nat where
  "defaultNodeStyles = 0"

definition initial_styles :: style_state where
  "initial_styles =
     \<lparr> style_objs =
         [default_style ''#a3e635'' ''#16a34a'' ''#15803d'',
          default_style ''#f87171'' ''#e11d48'' ''#be123c'',
          default_style ''#fbbf24'' ''#f97316'' ''#ea580c'',
          default_style ''#38bdf8'' ''#2563eb'' ''#1d4ed8''],
       styles_objs = [[(''start'', 0), (''end'', 1), (''decision'', 2), (''process'', 3)]],
       customNodeStyles = defaultNodeStyles \<rparr>"

text \<open>
  \<open>handleStyleChange\<close>: two fresh objects, nothing written to an existing one.
  Spreading \<open>prevStyles[nodeType]\<close> when the key is absent spreads \<open>undefined\<close>, which
  copies nothing.
\<close>

definition handleStyleChange :: "string \<Rightarrow> style_key \<Rightarrow> jsvalue \<Rightarrow> style_state \<Rightarrow> style_state" where
  "handleStyleChange nodeType property v s =
     (let prevStyles = styles_at s (customNodeStyles s);
          prevStyle = (case map_of prevStyles nodeType of
                         None \<Rightarrow> []
                       | Some a \<Rightarrow> style_at s a);
          newStyle = set_prop property v prevStyle;
          newStyles = set_prop nodeType (length (style_objs s)) prevStyles
      in \<lparr> style_objs = style_objs s @ [newStyle],
           styles_objs = styles_objs s @ [newStyles],
           customNodeStyles = length (styles_objs s) \<rparr>)"

text \<open>\<open>onReset\<close>: \<open>setCustomNodeStyles(defaultNodeStyles)\<close>.\<close>

definition reset :: "style_state \<Rightarrow> style_state" where
  "reset s = s \<lparr> customNodeStyles := defaultNodeStyles \<rparr>"

text \<open>Reading a \<open>NodeStyles\<close> object deeply: every type with the properties of its style.\<close>

definition read_styles :: "style_state \<Rightarrow> nat \<Rightarrow> (string \<times> (style_key \<times> jsvalue) list) list" where
  "read_styles s a = map (\<lambda>(t, i). (t, style_at s i)) (styles_at s a)"

definition read_StyleSet :: "style_state \<Rightarrow> (string \<times> (style_key \<times> jsvalue) list) list" where
  "read_StyleSet s = read_styles s (customNodeStyles s)"

datatype style_op = StyleChange string style_key jsvalue

fun apply_style_op :: "style_state \<Rightarrow> style_op \<Rightarrow> style_state" where
  "apply_style_op s (StyleChange t k v) = handleStyleChange t k v s"

subsection \<open>The font-size field\<close>

definition is_digit :: "char \<Rightarrow> bool" where
  "is_digit c = (c \<in> set ''0123456789'')"

definition digit_value :: "char \<Rightarrow> nat" where
  "digit_value c = of_char c - 48"

text \<open>The white space and line terminators of ECMAScript that a \<open>char\<close> can hold.\<close>

definition is_space :: "char \<Rightarrow> bool" where
  "is_space c = ((of_char c :: nat) \<in> {9, 10, 11, 12, 13, 32, 160})"

text \<open>
  \<open>parseInt(s, 10)\<close>: skip leading white space, read a sign, read the longest run of
  digits; no digit gives \<open>NaN\<close>.
\<close>

definition parseInt10 :: "string \<Rightarrow> jsvalue" where
  "parseInt10 s =
     (let t = dropWhile is_space s;
          neg = (t \<noteq> [] \<and> hd t = CHR ''-'');
          u = (if t \<noteq> [] \<and> (hd t = CHR ''-'' \<or> hd t = CHR ''+'') then tl t else t);
          ds = takeWhile is_digit u
      in if ds = [] then NaN
         else Num (of_int ((if neg then - 1 else 1) *
                int (foldl (\<lambda>n c. 10 * n + digit_value c) 0 ds))))"

text \<open>
  The \<open>onChange\<close> of the font-size input: \<open>target_value\<close> is \<open>e.target.value\<close> and
  \<open>type\<close> a key of the current styles.
\<close>

definition fontSize_onChange :: "string \<Rightarrow> string \<Rightarrow> style_state \<Rightarrow> style_state" where
  "fontSize_onChange type target_value s =
     handleStyleChange type fontSize (parseInt10 target_value) s"

definition fontSize_of :: "style_state \<Rightarrow> string \<Rightarrow> jsvalue option" where
  "fontSize_of s type =
     (case map_of (read_StyleSet s) type of
        None \<Rightarrow> None
      | Some st \<Rightarrow> map_of st fontSize)"

text \<open>The bound the field declares: \<open>min="8" max="24" step="1"\<close>.\<close>

fun fontSize_in_bounds :: "jsvalue option \<Rightarrow> bool" where
  "fontSize_in_bounds (Some (Num n)) = (n \<in> \<int> \<and> 8 \<le> n \<and> n \<le> 24)"
| "fontSize_in_bounds _ = False"

section \<open>Diagram model\<close>

datatype NodeType = Start | Process | Decision | End

record NodeData =
  node_id :: string
  node_label :: string
  node_type :: NodeType
  node_description :: "string option"

record EdgeData =
  edge_source :: string
  edge_target :: string
  edge_label :: "string option"

record FlowData =
  nodes :: "NodeData list"
  edges :: "EdgeData list"

text \<open>
  The invariants of the data model: node ids are unique, and every edge's source and
  target are ids of the node set.
\<close>

definition valid_diagram :: "FlowData \<Rightarrow> bool" where
  "valid_diagram d =
     (distinct (map node_id (nodes d))
      \<and> list_all (\<lambda>e. edge_source e \<in> node_id ` set (nodes d)
                     \<and> edge_target e \<in> node_id ` set (nodes d)) (edges d))"

section \<open>Layout adapter\<close>

text \<open>
  The graph object of the layout library, created with its default options: directed,
  not a multigraph.  The library keeps the nodes in a plain object keyed by id, and
  the edges in plain objects keyed by the string that joins source, U+0001, target,
  U+0001 and U+0000; \<open>g.nodes()\<close> are the keys of the first and \<open>g.edges()\<close> the
  end-point pairs stored under the second, listed here in insertion order.  The id
  \<open>__proto__\<close> never becomes a key of a plain object, so a node of that id is not
  listed (what else the assignment does inside the library is not modelled).
  \<open>setNode\<close> with a value stores the value under the id, replacing the value of an id
  already present.  \<open>setEdge\<close> replaces the value of a key already present and leaves
  the stored end points alone; otherwise it first creates the end points that are
  missing, with no value, and then adds the edge.
\<close>

record node_value =
  nv_label :: string
  nv_width :: real
  nv_height :: real
  nv_type :: NodeType
  nv_description :: "string option"
  nv_pos :: "point option"

record edge_value =
  ev_label :: "string option"
  ev_points :: "point list"
  ev_anchor :: "point option"

record graph =
  g_nodes :: "(string \<times> node_value option) list"
  g_edges :: "(string \<times> (string \<times> string) \<times> edge_value) list"
  g_size :: "point option"

definition empty_graph :: graph where
  "empty_graph = \<lparr> g_nodes = [], g_edges = [], g_size = None \<rparr>"

definition edge_key :: "string \<Rightarrow> string \<Rightarrow> string" where
  "edge_key v w = v @ [CHR 0x01] @ w @ [CHR 0x01, CHR 0x00]"

definition setNode :: "string \<Rightarrow> node_value \<Rightarrow> graph \<Rightarrow> graph" where
  "setNode v val g =
     (if v = ''__proto__'' then g
      else g \<lparr> g_nodes := set_prop v (Some val) (g_nodes g) \<rparr>)"

definition ensureNode :: "string \<Rightarrow> graph \<Rightarrow> graph" where
  "ensureNode v g =
     (if v = ''__proto__'' \<or> v \<in> fst ` set (g_nodes g) then g
      else g \<lparr> g_nodes := g_nodes g @ [(v, None)] \<rparr>)"

definition set_label ::
  "string \<Rightarrow> edge_value \<Rightarrow> (string \<times> (string \<times> string) \<times> edge_value) list
     \<Rightarrow> (string \<times> (string \<times> string) \<times> edge_value) list" where
  "set_label k val es = map (\<lambda>x. if fst x = k then (fst x, fst (snd x), val) else x) es"

definition setEdge :: "string \<Rightarrow> string \<Rightarrow> edge_value \<Rightarrow> graph \<Rightarrow> graph" where
  "setEdge v w val g =
     (if edge_key v w \<in> fst ` set (g_edges g)
      then g \<lparr> g_edges := set_label (edge_key v w) val (g_edges g) \<rparr>
      else (let g' = ensureNode w (ensureNode v g)
            in g' \<lparr> g_edges := g_edges g' @ [(edge_key v w, (v, w), val)] \<rparr>))"

definition NODE_WIDTH :: real where "NODE_WIDTH = 150"
definition NODE_HEIGHT :: real where "NODE_HEIGHT = 60"

text \<open>The two \<open>forEach\<close> loops that register the nodes and then the edges.\<close>

definition register_node :: "graph \<Rightarrow> NodeData \<Rightarrow> graph" where
  "register_node g n =
     setNode (node_id n)
       \<lparr> nv_label = node_label n, nv_width = NODE_WIDTH, nv_height = NODE_HEIGHT,
         nv_type = node_type n, nv_description = node_description n, nv_pos = None \<rparr> g"

definition register_edge :: "graph \<Rightarrow> EdgeData \<Rightarrow> graph" where
  "register_edge g e =
     setEdge (edge_source e) (edge_target e)
       \<lparr> ev_label = edge_label e, ev_points = [], ev_anchor = None \<rparr> g"

definition buildGraph :: "FlowData \<Rightarrow> graph" where
  "buildGraph d = foldl register_edge (foldl register_node empty_graph (nodes d)) (edges d)"

text \<open>
  The layout itself is an oracle.  For the graph it is given it either throws, which
  is \<open>None\<close> (the library does so for some graphs, for one with an empty node id for
  instance), or answers a centre for every node, routing points for every edge, a
  label anchor for the edges it chooses, and the overall size.  \<open>layout\<close> writes an
  answer into the graph and changes neither the node keys nor the edge keys.
\<close>

record layout_result =
  lr_pos :: "string \<Rightarrow> point"
  lr_points :: "string \<times> string \<Rightarrow> point list"
  lr_anchor :: "string \<times> string \<Rightarrow> point option"
  lr_size :: point

definition layout :: "(graph \<Rightarrow> layout_result option) \<Rightarrow> graph \<Rightarrow> graph option" where
  "layout dagre g =
     (case dagre g of
        None \<Rightarrow> None
      | Some r \<Rightarrow>
          Some \<lparr> g_nodes = map (\<lambda>x. (fst x, map_option (\<lambda>nv. nv \<lparr> nv_pos := Some (lr_pos r (fst x)) \<rparr>)
                                              (snd x)))
                             (g_nodes g),
                 g_edges = map (\<lambda>x. (fst x, fst (snd x),
                                       (snd (snd x)) \<lparr> ev_points := lr_points r (fst (snd x)),
                                                       ev_anchor := lr_anchor r (fst (snd x)) \<rparr>))
                             (g_edges g),
                 g_size = Some (lr_size r) \<rparr>)"

definition layout_adapter :: "(graph \<Rightarrow> layout_result option) \<Rightarrow> FlowData \<Rightarrow> graph option" where
  "layout_adapter dagre d = layout dagre (buildGraph d)"

text \<open>
  The edge store keeps one entry per key, each under the key of the end points it
  holds.
\<close>

definition keyed :: "graph \<Rightarrow> bool" where
  "keyed g =
     (distinct (map fst (g_edges g))
      \<and> list_all (\<lambda>x. fst x = edge_key (fst (fst (snd x))) (snd (fst (snd x)))) (g_edges g))"

text \<open>The LayoutNodes are \<open>g.nodes()\<close> and the LayoutEdges are \<open>g.edges()\<close>.\<close>

definition LayoutNodes :: "graph \<Rightarrow> string list" where
  "LayoutNodes g = map fst (g_nodes g)"

definition LayoutEdges :: "graph \<Rightarrow> (string \<times> string) list" where
  "LayoutEdges g = map (\<lambda>x. fst (snd x)) (g_edges g)"

text \<open>
  The ids for which the graph's keys behave like the ids themselves: not \<open>__proto__\<close>,
  and free of U+0001, the separator inside an edge's key.
\<close>

definition plain_id :: "string \<Rightarrow> bool" where
  "plain_id v = (v \<noteq> ''__proto__'' \<and> CHR 0x01 \<notin> set v)"

text \<open>
  A sample answer of the oracle, which throws on an empty node id, and sample
  Diagrams: two edges from \<open>a\<close> to \<open>b\<close>, a chain, and a node called \<open>__proto__\<close>.
\<close>

definition sample_dagre :: "graph \<Rightarrow> layout_result option" where
  "sample_dagre g =
     (if [] \<in> fst ` set (g_nodes g) then None
      else Some \<lparr> lr_pos = (\<lambda>v. (75, 30)), lr_points = (\<lambda>e. [(75, 30), (75, 30)]),
                  lr_anchor = (\<lambda>e. None), lr_size = (150, 60) \<rparr>)"

definition two_way_diagram :: FlowData where
  "two_way_diagram =
     \<lparr> nodes = [\<lparr> node_id = ''a'', node_label = ''Ready?'', node_type = Decision,
                  node_description = None \<rparr>,
                \<lparr> node_id = ''b'', node_label = ''Done'', node_type = End,
                  node_description = None \<rparr>],
       edges = [\<lparr> edge_source = ''a'', edge_target = ''b'', edge_label = Some ''Yes'' \<rparr>,
                \<lparr> edge_source = ''a'', edge_target = ''b'', edge_label = Some ''No'' \<rparr>] \<rparr>"

definition chain_diagram :: FlowData where
  "chain_diagram =
     \<lparr> nodes = [\<lparr> node_id = ''a'', node_label = ''Begin'', node_type = Start,
                  node_description = None \<rparr>,
                \<lparr> node_id = ''b'', node_label = ''Done'', node_type = End,
                  node_description = Some ''The level ends.'' \<rparr>],
       edges = [\<lparr> edge_source = ''a'', edge_target = ''b'', edge_label = None \<rparr>] \<rparr>"

definition proto_diagram :: FlowData where
  "proto_diagram =
     \<lparr> nodes = [\<lparr> node_id = ''a'', node_label = ''Begin'', node_type = Start,
                  node_description = None \<rparr>,
                \<lparr> node_id = ''__proto__'', node_label = ''Done'', node_type = End,
                  node_description = None \<rparr>],
       edges = [] \<rparr>"

section \<open>Render engine and interaction\<close>

text \<open>
  What the effect leaves on the canvas, as far as geometry goes.  For every edge of
  \<open>g.edges()\<close>: its end points, its value in the graph (\<open>g.edge(e)\<close>), the points its
  path element is drawn through, and the translation of its label element
  (\<open>None\<close>: the edge has no label element, which is the case when its label is not
  truthy).  For the nodes: the centres held by the graph (\<open>g.node(v).x\<close> and \<open>.y\<close>) and
  the translations of the node elements.
\<close>

record edge_view =
  e_v :: string
  e_w :: string
  e_data :: edge_value
  e_path :: "point list"
  e_label_at :: "point option option"

record scene =
  sc_pos :: "(string \<times> point) list"
  sc_node_at :: "(string \<times> point) list"
  sc_edges :: "edge_view list"

definition truthy :: "string option \<Rightarrow> bool" where
  "truthy l = (case l of None \<Rightarrow> False | Some s \<Rightarrow> s \<noteq> [])"

definition paint_edge :: "(string \<times> string) \<times> edge_value \<Rightarrow> edge_view" where
  "paint_edge e =
     \<lparr> e_v = fst (fst e), e_w = snd (fst e), e_data = snd e, e_path = ev_points (snd e),
       e_label_at = (if truthy (ev_label (snd e)) then Some (ev_anchor (snd e)) else None) \<rparr>"

text \<open>
  A node without a value or without a centre makes the painting code read a property
  of \<open>undefined\<close>; the effect then throws, which is \<open>None\<close>.
\<close>

definition paint_node :: "string \<times> node_value option \<Rightarrow> (string \<times> point) option" where
  "paint_node n =
     (case snd n of
        None \<Rightarrow> None
      | Some nv \<Rightarrow> (case nv_pos nv of None \<Rightarrow> None | Some p \<Rightarrow> Some (fst n, p)))"

definition paint :: "graph \<Rightarrow> scene option" where
  "paint g =
     (case those (map paint_node (g_nodes g)) of
        None \<Rightarrow> None
      | Some ps \<Rightarrow>
          Some \<lparr> sc_pos = ps, sc_node_at = ps,
                 sc_edges = map (\<lambda>x. paint_edge (snd x)) (g_edges g) \<rparr>)"

subsection \<open>Drag\<close>

definition midpoint :: "point \<Rightarrow> point \<Rightarrow> point" where
  "midpoint s t = ((fst s + fst t) / 2, (snd s + snd t) / 2)"

text \<open>
  The two \<open>filter(...).each(...)\<close> passes of the drag handler on one edge: the path of
  an incident edge is redrawn through the two centres, and where the edge has a label
  element the anchor in the graph and the label's translation become the midpoint.
  \<open>None\<close>: a centre is missing and the handler throws.
\<close>

definition drag_edge :: "(string \<times> point) list \<Rightarrow> string \<Rightarrow> edge_view \<Rightarrow> edge_view option" where
  "drag_edge pos nodeId e =
     (if e_v e = nodeId \<or> e_w e = nodeId
      then (case map_of pos (e_v e) of
              None \<Rightarrow> None
            | Some sourceNode \<Rightarrow>
                (case map_of pos (e_w e) of
                   None \<Rightarrow> None
                 | Some targetNode \<Rightarrow>
                     Some (if e_label_at e = None
                           then e \<lparr> e_path := [sourceNode, targetNode] \<rparr>
                           else e \<lparr> e_data := (e_data e) \<lparr> ev_anchor := Some (midpoint sourceNode targetNode) \<rparr>,
                                    e_path := [sourceNode, targetNode],
                                    e_label_at := Some (Some (midpoint sourceNode targetNode)) \<rparr>)))
      else Some e)"

text \<open>The \<open>drag\<close> event on the node \<open>nodeId\<close> with the event position \<open>ev\<close>.\<close>

definition drag :: "string \<Rightarrow> point \<Rightarrow> scene \<Rightarrow> scene option" where
  "drag nodeId ev sc =
     (if map_of (sc_pos sc) nodeId = None then None
      else (let pos' = set_prop nodeId ev (sc_pos sc)
            in case those (map (drag_edge pos' nodeId) (sc_edges sc)) of
                 None \<Rightarrow> None
               | Some es \<Rightarrow>
                   Some \<lparr> sc_pos = pos', sc_node_at = set_prop nodeId ev (sc_node_at sc),
                          sc_edges = es \<rparr>))"

subsection \<open>View transform and the effect\<close>

record view_transform =
  vt_x :: real
  vt_y :: real
  vt_k :: real

text \<open>
  The auto-fit at the end of the effect, from the container's size and the size the
  layout reports; \<open>None\<close> when the size is not positive and no transform is set.
\<close>

definition auto_fit :: "point \<Rightarrow> point option \<Rightarrow> view_transform option" where
  "auto_fit container gs =
     (case gs of
        None \<Rightarrow> None
      | Some (graphWidth, graphHeight) \<Rightarrow>
          (let containerWidth = fst container; containerHeight = snd container
           in if graphWidth > 0 \<and> graphHeight > 0
              then (let scale = min (min ((containerWidth - 80) / graphWidth)
                                         ((containerHeight - 80) / graphHeight)) 1.5
                    in Some \<lparr> vt_x = (containerWidth - graphWidth * scale) / 2,
                               vt_y = (containerHeight - graphHeight * scale) / 2,
                               vt_k = scale \<rparr>)
              else None))"

text \<open>
  The component: its \<open>data\<close> prop, its style state, and what is on the canvas (the
  scene, \<open>None\<close> when cleared, and the transform of the content group).  The
  environment gives the layout oracle and the container's size.
\<close>

record flowchart =
  fc_data :: "FlowData option"
  fc_styles :: style_state
  fc_scene :: "scene option"
  fc_view :: "view_transform option"

record environment =
  env_dagre :: "graph \<Rightarrow> layout_result option"
  env_container :: point

definition initial_flowchart :: flowchart where
  "initial_flowchart =
     \<lparr> fc_data = None, fc_styles = initial_styles, fc_scene = None, fc_view = None \<rparr>"

text \<open>The body of the effect with the dependencies \<open>[data, customNodeStyles]\<close>.\<close>

definition paint_effect :: "environment \<Rightarrow> flowchart \<Rightarrow> flowchart" where
  "paint_effect env fc =
     (case fc_data fc of
        None \<Rightarrow> fc \<lparr> fc_scene := None, fc_view := None \<rparr>
      | Some d \<Rightarrow>
          (if nodes d = [] then fc \<lparr> fc_scene := None, fc_view := None \<rparr>
           else (case layout_adapter (env_dagre env) d of
                   None \<Rightarrow> fc \<lparr> fc_scene := None, fc_view := None \<rparr>
                 | Some g \<Rightarrow>
                     (case paint g of
                        None \<Rightarrow> fc \<lparr> fc_scene := None, fc_view := None \<rparr>
                      | Some sc \<Rightarrow>
                          fc \<lparr> fc_scene := Some sc,
                               fc_view := auto_fit (env_container env) (g_size g) \<rparr>))))"

text \<open>
  What re-runs the effect: a new \<open>data\<close> prop; a style change, whose new state is
  always a fresh object; a reset, unless the state already is \<open>defaultNodeStyles\<close>.
  A zoom or pan gesture sets the transform of the content group.
\<close>

definition receive_data :: "environment \<Rightarrow> FlowData option \<Rightarrow> flowchart \<Rightarrow> flowchart" where
  "receive_data env d fc = paint_effect env (fc \<lparr> fc_data := d \<rparr>)"

definition change_style ::
  "environment \<Rightarrow> string \<Rightarrow> style_key \<Rightarrow> jsvalue \<Rightarrow> flowchart \<Rightarrow> flowchart" where
  "change_style env t k v fc =
     paint_effect env (fc \<lparr> fc_styles := handleStyleChange t k v (fc_styles fc) \<rparr>)"

definition reset_styles :: "environment \<Rightarrow> flowchart \<Rightarrow> flowchart" where
  "reset_styles env fc =
     (if customNodeStyles (fc_styles fc) = defaultNodeStyles then fc
      else paint_effect env (fc \<lparr> fc_styles := reset (fc_styles fc) \<rparr>))"

definition zoom_to :: "view_transform \<Rightarrow> flowchart \<Rightarrow> flowchart" where
  "zoom_to t fc = (if fc_scene fc = None then fc else fc \<lparr> fc_view := Some t \<rparr>)"

definition sample_env :: environment where
  "sample_env = \<lparr> env_dagre = sample_dagre, env_container = (800, 600) \<rparr>"

definition sample_scene :: scene where
  "sample_scene =
     \<lparr> sc_pos = [(''a'', (75, 30)), (''b'', (75, 170)), (''c'', (75, 310))],
       sc_node_at = [(''a'', (75, 30)), (''b'', (75, 170)), (''c'', (75, 310))],
       sc_edges =
         [\<lparr> e_v = ''a'', e_w = ''b'',
            e_data = \<lparr> ev_label = Some ''Yes'', ev_points = [(75, 60), (75, 100), (75, 140)],
                       ev_anchor = Some (75, 100) \<rparr>,
            e_path = [(75, 60), (75, 100), (75, 140)], e_label_at = Some (Some (75, 100)) \<rparr>,
          \<lparr> e_v = ''b'', e_w = ''c'',
            e_data = \<lparr> ev_label = None, ev_points = [(75, 200), (75, 240), (75, 280)],
                       ev_anchor = None \<rparr>,
            e_path = [(75, 200), (75, 240), (75, 280)], e_label_at = None \<rparr>] \<rparr>"

text \<open>A scene whose two edges leave \<open>a\<close> and carry no label.\<close>

definition unlabelled_scene :: scene where
  "unlabelled_scene =
     \<lparr> sc_pos = [(''a'', (75, 30)), (''b'', (75, 170)), (''c'', (225, 170))],
       sc_node_at = [(''a'', (75, 30)), (''b'', (75, 170)), (''c'', (225, 170))],
       sc_edges =
         [\<lparr> e_v = ''a'', e_w = ''b'',
            e_data = \<lparr> ev_label = None, ev_points = [(75, 60), (75, 100), (75, 140)],
                       ev_anchor = Some (75, 100) \<rparr>,
            e_path = [(75, 60), (75, 100), (75, 140)], e_label_at = None \<rparr>,
          \<lparr> e_v = ''a'', e_w = ''c'',
            e_data = \<lparr> ev_label = None, ev_points = [(75, 60), (150, 100), (225, 140)],
                       ev_anchor = None \<rparr>,
            e_path = [(75, 60), (150, 100), (225, 140)], e_label_at = None \<rparr>] \<rparr>"

text \<open>The painted chain after the user has set the view to the identity.\<close>

definition zoomed_flowchart :: flowchart where
  "zoomed_flowchart =
     zoom_to \<lparr> vt_x = 0, vt_y = 0, vt_k = 1 \<rparr>
       (receive_data sample_env (Some chain_diagram) initial_flowchart)"

section \<open>Ingestion: the inference provider's payload\<close>

text \<open>
  The value \<open>JSON.parse\<close> returns.  An object is the list of its own properties,
  each key once (a read takes the first entry of a list that repeats a key); a
  property read that finds nothing is \<open>undefined\<close>, which is \<open>None\<close> below.
\<close>

datatype json =
  JNull
| JBool bool
| JNum real
| JStr string
| JArr "json list"
| JObj "(string \<times> json) list"

text \<open>
  \<open>x.k\<close> for the property names used here, on a value that is neither \<open>null\<close> nor
  \<open>undefined\<close>: only an object has them.
\<close>

fun get :: "json option \<Rightarrow> string \<Rightarrow> json option" where
  "get (Some (JObj ps)) k = map_of ps k"
| "get _ k = None"

fun falsy :: "json option \<Rightarrow> bool" where
  "falsy None = True"
| "falsy (Some JNull) = True"
| "falsy (Some (JBool b)) = (\<not> b)"
| "falsy (Some (JNum n)) = (n = 0)"
| "falsy (Some (JStr s)) = (s = [])"
| "falsy (Some (JArr xs)) = False"
| "falsy (Some (JObj ps)) = False"

fun typeof :: "json option \<Rightarrow> string" where
  "typeof None = ''undefined''"
| "typeof (Some JNull) = ''object''"
| "typeof (Some (JBool b)) = ''boolean''"
| "typeof (Some (JNum n)) = ''number''"
| "typeof (Some (JStr s)) = ''string''"
| "typeof (Some (JArr xs)) = ''object''"
| "typeof (Some (JObj ps)) = ''object''"

fun isArray :: "json option \<Rightarrow> bool" where
  "isArray (Some (JArr xs)) = True"
| "isArray _ = False"

fun elements :: "json option \<Rightarrow> json list" where
  "elements (Some (JArr xs)) = xs"
| "elements _ = []"

fun string_of :: "json option \<Rightarrow> string" where
  "string_of (Some (JStr s)) = s"
| "string_of _ = []"

text \<open>What a \<open>throw\<close> can carry: an \<open>Error\<close> with its message, or some other value.\<close>

datatype thrown = Error string | NonError

text \<open>
  What the script's run time contributes: \<open>JSON.parse\<close> on a string (\<open>None\<close>: it
  throws), the conversion of a value that is not a string by a template literal, and
  the message of the \<open>TypeError\<close> raised when \<open>null\<close> is destructured.
\<close>

record runtime =
  JSON_parse :: "string \<Rightarrow> json option"
  ToString :: "json \<Rightarrow> string"
  null_destructure_message :: string

definition apostrophe :: string where
  "apostrophe = [CHR 0x27]"

definition node_types :: "string list" where
  "node_types = [''start'', ''process'', ''decision'', ''end'']"

text \<open>The callback of \<open>flowchart.nodes.map\<close>: the node's id, or the error it throws.\<close>

definition check_node :: "json \<Rightarrow> thrown + string" where
  "check_node node =
     (if falsy (Some node) \<or> typeof (get (Some node) ''id'') \<noteq> ''string''
         \<or> typeof (get (Some node) ''label'') \<noteq> ''string''
         \<or> typeof (get (Some node) ''type'') \<noteq> ''string''
      then Inl (Error ''Invalid node data: Each node must have a valid 'id', 'label', and 'type'.'')
      else if string_of (get (Some node) ''type'') \<notin> set node_types
      then Inl (Error (''Invalid node type: Node '' @ apostrophe @ string_of (get (Some node) ''id'')
                       @ apostrophe @ '' has an unsupported type '' @ apostrophe
                       @ string_of (get (Some node) ''type'') @ apostrophe @ ''.''))
      else Inr (string_of (get (Some node) ''id'')))"

fun check_nodes :: "json list \<Rightarrow> thrown + string list" where
  "check_nodes [] = Inr []"
| "check_nodes (node # rest) =
     (case check_node node of
        Inl e \<Rightarrow> Inl e
      | Inr i \<Rightarrow> (case check_nodes rest of Inl e \<Rightarrow> Inl e | Inr is \<Rightarrow> Inr (i # is)))"

text \<open>The body of the loop over \<open>flowchart.edges\<close>: the error it throws, if any.\<close>

definition check_edge :: "string list \<Rightarrow> json \<Rightarrow> thrown option" where
  "check_edge nodeIds edge =
     (if falsy (Some edge) \<or> typeof (get (Some edge) ''source'') \<noteq> ''string''
         \<or> typeof (get (Some edge) ''target'') \<noteq> ''string''
      then Some (Error ''Invalid edge data: Each edge must have a 'source' and 'target'.'')
      else if string_of (get (Some edge) ''source'') \<notin> set nodeIds
      then Some (Error (''Data integrity issue: Edge references a non-existent source node with ID ''
                        @ apostrophe @ string_of (get (Some edge) ''source'') @ apostrophe @ ''.''))
      else if string_of (get (Some edge) ''target'') \<notin> set nodeIds
      then Some (Error (''Data integrity issue: Edge references a non-existent target node with ID ''
                        @ apostrophe @ string_of (get (Some edge) ''target'') @ apostrophe @ ''.''))
      else None)"

fun check_edges :: "string list \<Rightarrow> json list \<Rightarrow> thrown option" where
  "check_edges nodeIds [] = None"
| "check_edges nodeIds (edge # rest) =
     (case check_edge nodeIds edge of
        Some e \<Rightarrow> Some e
      | None \<Rightarrow> check_edges nodeIds rest)"

text \<open>
  The validation between \<open>JSON.parse\<close> and the \<open>return\<close>: the payload itself, or what
  is thrown.
\<close>

definition validate :: "runtime \<Rightarrow> json \<Rightarrow> thrown + json" where
  "validate rt parsedData =
     (if parsedData = JNull then Inl (Error (null_destructure_message rt))
      else (let flowchart = get (Some parsedData) ''flowchart'';
                functions = get (Some parsedData) ''functions''
            in if falsy flowchart \<or> typeof flowchart \<noteq> ''object''
                  \<or> \<not> isArray (get flowchart ''nodes'')
                  \<or> \<not> isArray (get flowchart ''edges'')
                  \<or> \<not> isArray functions
               then Inl (Error ''Invalid data structure: The AI response is missing key components or has incorrect types.'')
               else (case check_nodes (elements (get flowchart ''nodes'')) of
                       Inl e \<Rightarrow> Inl e
                     | Inr nodeIds \<Rightarrow>
                         (case check_edges nodeIds (elements (get flowchart ''edges'')) of
                            Some e \<Rightarrow> Inl e
                          | None \<Rightarrow> Inr parsedData))))"

subsection \<open>Attempts, retries and the final error\<close>

text \<open>
  One pass through the \<open>try\<close> block up to \<open>JSON.parse\<close>: the provider call, reading
  \<open>response.text\<close> or the parser throws, or a value is parsed.
\<close>

datatype attempt_outcome = Throws thrown | Parsed json

definition try_body :: "runtime \<Rightarrow> attempt_outcome \<Rightarrow> thrown + json" where
  "try_body rt a = (case a of Throws e \<Rightarrow> Inl e | Parsed parsedData \<Rightarrow> validate rt parsedData)"

definition starts_with :: "string \<Rightarrow> string \<Rightarrow> bool" where
  "starts_with s sub = (take (length sub) s = sub)"

fun str_includes :: "string \<Rightarrow> string \<Rightarrow> bool" where
  "str_includes [] sub = (sub = [])"
| "str_includes (c # cs) sub = (starts_with (c # cs) sub \<or> str_includes cs sub)"

definition isRateLimitError :: "thrown \<Rightarrow> bool" where
  "isRateLimitError e = (case e of Error m \<Rightarrow> str_includes m ''429'' | NonError \<Rightarrow> False)"

text \<open>
  The first group of \<open>/({.*})/s\<close>: from the first opening brace to the last closing
  brace after it, if there is one.
\<close>

definition match_braces :: "string \<Rightarrow> string option" where
  "match_braces s =
     (let t = dropWhile (\<lambda>c. c \<noteq> CHR ''{'') s;
          r = rev (dropWhile (\<lambda>c. c \<noteq> CHR ''}'') (rev t))
      in if r = [] then None else Some r)"

definition finalErrorMessage :: "runtime \<Rightarrow> thrown \<Rightarrow> string" where
  "finalErrorMessage rt e =
     (case e of
        NonError \<Rightarrow> ''An unknown error occurred while communicating with the AI.''
      | Error m \<Rightarrow>
          (case match_braces m of
             None \<Rightarrow> m
           | Some j \<Rightarrow>
               (case JSON_parse rt j of
                  None \<Rightarrow> m
                | Some errorJson \<Rightarrow>
                    (let err = (if errorJson = JNull then None else get (Some errorJson) ''error'');
                         msg = (if err = None \<or> err = Some JNull then None else get err ''message'')
                     in if falsy msg then m
                        else (case msg of
                                Some (JStr s) \<Rightarrow> s
                              | Some v \<Rightarrow> ToString rt v
                              | None \<Rightarrow> m)))))"

definition maxRetries :: nat where
  "maxRetries = 3"

text \<open>
  The result of a call: how many times the provider was called, the delays waited in
  order (milliseconds), and the value returned (\<open>Inr\<close>) or the message of the \<open>Error\<close>
  thrown (\<open>Inl\<close>).
\<close>

record outcome =
  calls :: nat
  delays :: "nat list"
  result :: "string + json"

text \<open>
  The \<open>while\<close> loop.  \<open>provider i\<close> is the outcome of the provider call made when
  \<open>attempt\<close> is \<open>i\<close>.
\<close>

function attempt_loop ::
  "runtime \<Rightarrow> (nat \<Rightarrow> attempt_outcome) \<Rightarrow> nat \<Rightarrow> nat \<Rightarrow> nat list \<Rightarrow> outcome" where
  "attempt_loop rt provider attempt delayMs slept =
     (if attempt < maxRetries
      then (case try_body rt (provider attempt) of
              Inr parsedData \<Rightarrow>
                \<lparr> calls = attempt + 1, delays = slept, result = Inr parsedData \<rparr>
            | Inl e \<Rightarrow>
                (if isRateLimitError e \<and> attempt + 1 < maxRetries
                 then attempt_loop rt provider (attempt + 1) (delayMs * 2) (slept @ [delayMs])
                 else \<lparr> calls = attempt + 1, delays = slept,
                        result = Inl (''Failed to generate flowchart: '' @ finalErrorMessage rt e) \<rparr>))
      else \<lparr> calls = attempt, delays = slept,
             result = Inl ''Failed to generate flowchart after multiple attempts. The API is busy, please try again later.'' \<rparr>)"
  by pat_completeness auto
termination
  by (relation "measure (\<lambda>(rt, provider, attempt, delayMs, slept). maxRetries - attempt)") auto

definition generateFlowFromScript :: "runtime \<Rightarrow> (nat \<Rightarrow> attempt_outcome) \<Rightarrow> outcome" where
  "generateFlowFromScript rt provider = attempt_loop rt provider 0 2000 []"

subsection \<open>The application state\<close>

record app_state =
  script :: string
  flowData :: "json option"
  generatedFunctions :: "json list"
  isLoading :: bool
  error :: "string option"

text \<open>
  \<open>handleAnalyzeScript\<close>, run to completion.  A script that \<open>trim()\<close> leaves empty
  returns at once.  Whatever \<open>generateFlowFromScript\<close> throws is an \<open>Error\<close>, so the
  handler stores its message.
\<close>

definition handleAnalyzeScript ::
  "runtime \<Rightarrow> (nat \<Rightarrow> attempt_outcome) \<Rightarrow> app_state \<Rightarrow> app_state" where
  "handleAnalyzeScript rt provider st =
     (if list_all is_space (script st) then st
      else (let st1 = st \<lparr> isLoading := True, error := None, flowData := None,
                           generatedFunctions := [] \<rparr>
            in case result (generateFlowFromScript rt provider) of
                 Inr res \<Rightarrow>
                   st1 \<lparr> flowData := get (Some res) ''flowchart'',
                         generatedFunctions := elements (get (Some res) ''functions''),
                         isLoading := False \<rparr>
               | Inl message \<Rightarrow> st1 \<lparr> error := Some message, isLoading := False \<rparr>))"

subsection \<open>What the validation accepts, stated on the payload\<close>

text \<open>
  A node passes when its id, label and type are strings and the type is one of the
  four; an edge passes when its source and target are strings and both are among the
  declared ids.
\<close>

definition node_ok :: "json \<Rightarrow> bool" where
  "node_ok node =
     (typeof (get (Some node) ''id'') = ''string''
      \<and> typeof (get (Some node) ''label'') = ''string''
      \<and> typeof (get (Some node) ''type'') = ''string''
      \<and> string_of (get (Some node) ''type'') \<in> set node_types)"

definition declared_ids :: "json list \<Rightarrow> string list" where
  "declared_ids ns = map (\<lambda>node. string_of (get (Some node) ''id'')) ns"

definition edge_ok :: "string list \<Rightarrow> json \<Rightarrow> bool" where
  "edge_ok ids edge =
     (typeof (get (Some edge) ''source'') = ''string''
      \<and> typeof (get (Some edge) ''target'') = ''string''
      \<and> string_of (get (Some edge) ''source'') \<in> set ids
      \<and> string_of (get (Some edge) ''target'') \<in> set ids)"

subsection \<open>Sample payloads and providers\<close>

definition payload :: "json list \<Rightarrow> json list \<Rightarrow> json list \<Rightarrow> json" where
  "payload ns es fs =
     JObj [(''flowchart'', JObj [(''nodes'', JArr ns), (''edges'', JArr es)]),
           (''functions'', JArr fs)]"

definition good_payload :: json where
  "good_payload =
     payload
       [JObj [(''id'', JStr ''n1''), (''label'', JStr ''Begin''), (''type'', JStr ''start'')],
        JObj [(''id'', JStr ''n2''), (''label'', JStr ''Done''), (''type'', JStr ''end'')]]
       [JObj [(''source'', JStr ''n1''), (''target'', JStr ''n2'')]]
       [JStr ''check inventory'']"

definition dangling_payload :: json where
  "dangling_payload =
     payload
       [JObj [(''id'', JStr ''n1''), (''label'', JStr ''Begin''), (''type'', JStr ''start'')]]
       [JObj [(''source'', JStr ''ghost''), (''target'', JStr ''n1'')]]
       []"

definition blank_node_payload :: json where
  "blank_node_payload =
     payload [JObj [(''id'', JStr ''''), (''label'', JStr ''''), (''type'', JStr ''process'')]] [] []"

definition sample_runtime :: runtime where
  "sample_runtime =
     \<lparr> JSON_parse = (\<lambda>s. None), ToString = (\<lambda>v. ''[object Object]''),
       null_destructure_message = ''Cannot destructure property of null'' \<rparr>"

definition busy_provider :: "nat \<Rightarrow> attempt_outcome" where
  "busy_provider i =
     (if i < 2 then Throws (Error ''got status: 429 Too Many Requests'') else Parsed good_payload)"

definition dangling_provider :: "nat \<Rightarrow> attempt_outcome" where
  "dangling_provider i = Parsed dangling_payload"

definition blank_node_provider :: "nat \<Rightarrow> attempt_outcome" where
  "blank_node_provider i = Parsed blank_node_payload"

definition n429_payload :: json where
  "n429_payload =
     payload
       [JObj [(''id'', JStr ''n1''), (''label'', JStr ''Begin''), (''type'', JStr ''start'')]]
       [JObj [(''source'', JStr ''n429''), (''target'', JStr ''n1'')]]
       []"

definition offline_provider :: "nat \<Rightarrow> attempt_outcome" where
  "offline_provider i = Throws (Error ''fetch failed'')"

definition n429_provider :: "nat \<Rightarrow> attempt_outcome" where
  "n429_provider i = Parsed n429_payload"

definition n429_then_good_provider :: "nat \<Rightarrow> attempt_outcome" where
  "n429_then_good_provider i = (if i = 0 then Parsed n429_payload else Parsed good_payload)"

definition sample_app :: app_state where
  "sample_app =
     \<lparr> script = ''The game starts.'', flowData = None, generatedFunctions = [],
       isLoading = False, error = None \<rparr>"

section \<open>Render engine: word wrap\<close>

text \<open>
  \<open>s.split(/\s+/)\<close>: the pieces between the maximal runs of white space; white space
  at the very start or end leaves an empty first or last piece.
\<close>

function split_ws :: "string \<Rightarrow> string \<Rightarrow> string list" where
  "split_ws cur [] = [cur]"
| "split_ws cur (c # cs) =
     (if is_space c then cur # split_ws [] (dropWhile is_space cs)
      else split_ws (cur @ [c]) cs)"
  by pat_completeness auto
termination
  by (relation "measure (\<lambda>(cur, s). length s)") (auto simp: length_dropWhile_le less_Suc_eq_le)

definition split_whitespace :: "string \<Rightarrow> string list" where
  "split_whitespace s = split_ws [] s"

text \<open>\<open>line.join(" ")\<close>.\<close>

fun join_sp :: "string list \<Rightarrow> string" where
  "join_sp [] = []"
| "join_sp [w] = w"
| "join_sp (w # v # ws) = w @ '' '' @ join_sp (v # ws)"

text \<open>
  The loop \<open>while (word = words.pop())\<close> of \<open>wrapText\<close>.  \<open>msr\<close> is
  \<open>getComputedTextLength\<close> for a tspan holding the given text, at the font size in
  force.  \<open>words\<close> are the words still to come, in reading order; \<open>line\<close> is the
  current line; \<open>finished\<close> are the texts of the tspans already left behind and \<open>cur\<close>
  the text of the current tspan.  An empty word is falsy and ends the loop, as does
  running out of words.  The result is the text of every tspan, top to bottom.
\<close>

fun wrap_words ::
  "(string \<Rightarrow> real) \<Rightarrow> real \<Rightarrow> string list \<Rightarrow> string list \<Rightarrow> string list \<Rightarrow> string \<Rightarrow> string list" where
  "wrap_words msr width [] line finished cur = finished @ [cur]"
| "wrap_words msr width (word # words) line finished cur =
     (if word = [] then finished @ [cur]
      else if msr (join_sp (line @ [word])) > width \<and> length (line @ [word]) > 1
      then wrap_words msr width words [word] (finished @ [join_sp line]) word
      else wrap_words msr width words (line @ [word]) finished (join_sp (line @ [word])))"

definition wrapText :: "(string \<Rightarrow> real) \<Rightarrow> real \<Rightarrow> string \<Rightarrow> string list" where
  "wrapText msr width label = wrap_words msr width (split_whitespace label) [] [] []"

text \<open>A sample measure: every character is 8 units wide.\<close>

definition sample_measure :: "string \<Rightarrow> real" where
  "sample_measure s = 8 * real (length s)"

text \<open>The white-space delimited words of a text.\<close>

definition label_words :: "string \<Rightarrow> string list" where
  "label_words s = filter (\<lambda>w. w \<noteq> []) (split_whitespace s)"

section \<open>Theorems: export pipeline\<close>

text \<open>
  The canvas has the document's size converted to whole pixels, and the fit-to-page
  export places that canvas.
\<close>

lemma handleExportPDF_fit:
  "createCanvasFromSVG env svgElement b 2 = Inr r \<Longrightarrow>
     handleExportPDF env True (Some svgElement) (Some b)
       = Some (fit_to_a4 (real (canvas_width (raster_canvas r)))
                         (real (canvas_height (raster_canvas r))))"
  by (simp add: handleExportPDF_def Let_def)

lemma createCanvasFromSVG_canvas:
  "createCanvasFromSVG env svgElement b scale = Inr r \<Longrightarrow>
     raster_canvas r
       = \<lparr> canvas_width = canvas_dimension 300 ((bbox_width b + 40) * scale),
           canvas_height = canvas_dimension 150 ((bbox_height b + 40) * scale) \<rparr>"
  by (auto simp: createCanvasFromSVG_def Let_def padding_def split: option.splits if_splits)

text \<open>
  C5.  For every bounding box \<open>(x, y, w, h)\<close> of the live diagram, the vector export
  (\<open>getSVGString\<close>, scale 1) and the raster export's document (\<open>createCanvasFromSVG\<close>,
  scale 2) have size \<open>((w + 40) s) \<times> ((h + 40) s)\<close> and re-anchor the content group by
  \<open>translate((-x + 20) s, (-y + 20) s)\<close>; the transform carries the bounding box onto
  the rectangle that leaves exactly \<open>20 s\<close> free on each of the four sides.
\<close>

theorem export_bounding_box_padded:
  "getSVGString (Some (svg \<lparr> svg_group := Some t0 \<rparr>))
       (Some \<lparr> bbox_x = x, bbox_y = y, bbox_width = w, bbox_height = h \<rparr>) =
     Some (svg \<lparr> svg_width := Some ((w + 40) * 1), svg_height := Some ((h + 40) * 1),
                  svg_group := Some (Some (Translate ((- x + 20) * 1) ((- y + 20) * 1))) \<rparr>)
   \<and> raster_document (svg \<lparr> svg_group := Some t0 \<rparr>)
       \<lparr> bbox_x = x, bbox_y = y, bbox_width = w, bbox_height = h \<rparr> 2 =
     Some (svg \<lparr> svg_width := Some ((w + 40) * 2), svg_height := Some ((h + 40) * 2),
                  svg_group := Some (Some (TranslateScale ((- x + 20) * 2) ((- y + 20) * 2) 2)) \<rparr>)
   \<and> apply_transform (Translate ((- x + 20) * 1) ((- y + 20) * 1)) (x, y) = (20 * 1, 20 * 1)
   \<and> apply_transform (Translate ((- x + 20) * 1) ((- y + 20) * 1)) (x + w, y + h)
        = ((w + 40) * 1 - 20 * 1, (h + 40) * 1 - 20 * 1)
   \<and> apply_transform (TranslateScale ((- x + 20) * 2) ((- y + 20) * 2) 2) (x, y) = (20 * 2, 20 * 2)
   \<and> apply_transform (TranslateScale ((- x + 20) * 2) ((- y + 20) * 2) 2) (x + w, y + h)
        = ((w + 40) * 2 - 20 * 2, (h + 40) * 2 - 20 * 2)"
  by (simp add: getSVGString_def raster_document_def createCanvasFromSVG_def padding_def Let_def)

text \<open>
  C6.  Fit-to-page PDF export of a canvas of positive width and height: the page is
  landscape exactly when width / height exceeds 1; the page is 297 by 210 mm in
  landscape and 210 by 297 mm in portrait; the placed image keeps the canvas's aspect
  ratio, fits within the page less 10 mm on every side, and is centred.
\<close>

theorem fit_to_a4_placement:
  fixes cw ch :: real
  assumes "0 < cw" and "0 < ch"
  shows "(pdf_orientation (fit_to_a4 cw ch) = Landscape) = (cw / ch > 1)
       \<and> (pdf_page_width (fit_to_a4 cw ch), pdf_page_height (fit_to_a4 cw ch)) =
           (if pdf_orientation (fit_to_a4 cw ch) = Landscape then (297, 210) else (210, 297))
       \<and> pdf_image_width (fit_to_a4 cw ch) / pdf_image_height (fit_to_a4 cw ch) = cw / ch
       \<and> pdf_image_width (fit_to_a4 cw ch) \<le> pdf_page_width (fit_to_a4 cw ch) - 2 * 10
       \<and> pdf_image_height (fit_to_a4 cw ch) \<le> pdf_page_height (fit_to_a4 cw ch) - 2 * 10
       \<and> pdf_image_x (fit_to_a4 cw ch) =
           (pdf_page_width (fit_to_a4 cw ch) - pdf_image_width (fit_to_a4 cw ch)) / 2
       \<and> pdf_image_y (fit_to_a4 cw ch) =
           (pdf_page_height (fit_to_a4 cw ch) - pdf_image_height (fit_to_a4 cw ch)) / 2"
proof -
  define r where "r = cw / ch"
  have r: "0 < r" using assms by (simp add: r_def)
  have w1: "u / r > v \<Longrightarrow> v * r \<le> u" for u v :: real
    using r by (simp add: pos_less_divide_eq)
  have q: "u * r / u = r" if "0 < u" for u :: real using that by simp
  have q2: "u / (u / r) = r" if "0 < u" for u :: real using that r by simp
  show ?thesis
    unfolding fit_to_a4_def Let_def r_def [symmetric]
    using r w1 [of 190 277] w1 [of 277 190] q [of 277] q [of 190] q2 [of 190] q2 [of 277]
    by (simp add: PADDING_MM_def A4_WIDTH_MM_def A4_HEIGHT_MM_def)
qed

theorem fit_to_a4_placement_witness:
  "(0::real) < 800 \<and> (0::real) < 400
   \<and> fit_to_a4 800 400 =
       \<lparr> pdf_orientation = Landscape, pdf_page_width = 297, pdf_page_height = 210,
         pdf_image_x = 10, pdf_image_y = 143 / 4, pdf_image_width = 277,
         pdf_image_height = 277 / 2, pdf_filename = ''flowchart-a4.pdf'' \<rparr>
   \<and> pdf_image_width (fit_to_a4 800 400) / pdf_image_height (fit_to_a4 800 400) = 800 / 400"
  using fit_to_a4_placement [of 800 400]
  by (simp add: fit_to_a4_def PADDING_MM_def A4_WIDTH_MM_def A4_HEIGHT_MM_def)

section \<open>Theorems: style state\<close>

lemma handleStyleChange_extends:
  "\<exists>xs ys. style_objs (handleStyleChange t k v s) = style_objs s @ xs
         \<and> styles_objs (handleStyleChange t k v s) = styles_objs s @ ys"
  by (simp add: handleStyleChange_def Let_def)

lemma style_ops_extend:
  "\<exists>xs ys. style_objs (foldl apply_style_op s ops) = style_objs s @ xs
         \<and> styles_objs (foldl apply_style_op s ops) = styles_objs s @ ys"
proof (induction ops arbitrary: s)
  case Nil
  show ?case by simp
next
  case (Cons op ops)
  obtain t k v where op: "op = StyleChange t k v" by (cases op)
  obtain xs ys where 1: "style_objs (handleStyleChange t k v s) = style_objs s @ xs"
      "styles_objs (handleStyleChange t k v s) = styles_objs s @ ys"
    using handleStyleChange_extends by blast
  obtain xs' ys' where 2:
      "style_objs (foldl apply_style_op (handleStyleChange t k v s) ops)
         = style_objs (handleStyleChange t k v s) @ xs'"
      "styles_objs (foldl apply_style_op (handleStyleChange t k v s) ops)
         = styles_objs (handleStyleChange t k v s) @ ys'"
    using Cons.IH by blast
  show ?case using 1 2 by (simp add: op)
qed

lemma read_styles_prefix:
  assumes "style_objs s = style_objs initial_styles @ xs"
    and "styles_objs s = styles_objs initial_styles @ ys"
  shows "read_styles s defaultNodeStyles = read_styles initial_styles defaultNodeStyles"
  using assms
  by (simp add: read_styles_def styles_at_def style_at_def defaultNodeStyles_def
      initial_styles_def nth_append)

text \<open>
  C7.  After any finite sequence of \<open>handleStyleChange\<close> calls, with any type, key and
  value, a reset followed by reading the StyleSet gives the built-in defaults, and the
  objects of the defaults are still in the store as they were: no call wrote to them.
\<close>

theorem reset_restores_defaults:
  "read_StyleSet (reset (foldl apply_style_op initial_styles ops))
     = read_StyleSet initial_styles
   \<and> read_StyleSet initial_styles =
       [(''start'', default_style ''#a3e635'' ''#16a34a'' ''#15803d''),
        (''end'', default_style ''#f87171'' ''#e11d48'' ''#be123c''),
        (''decision'', default_style ''#fbbf24'' ''#f97316'' ''#ea580c''),
        (''process'', default_style ''#38bdf8'' ''#2563eb'' ''#1d4ed8'')]
   \<and> take 4 (style_objs (reset (foldl apply_style_op initial_styles ops)))
       = style_objs initial_styles
   \<and> take 1 (styles_objs (reset (foldl apply_style_op initial_styles ops)))
       = styles_objs initial_styles"
proof -
  obtain xs ys where ext:
      "style_objs (foldl apply_style_op initial_styles ops) = style_objs initial_styles @ xs"
      "styles_objs (foldl apply_style_op initial_styles ops) = styles_objs initial_styles @ ys"
    using style_ops_extend by blast
  have ext': "style_objs (reset (foldl apply_style_op initial_styles ops))
                = style_objs initial_styles @ xs"
      "styles_objs (reset (foldl apply_style_op initial_styles ops))
                = styles_objs initial_styles @ ys"
    using ext by (simp_all add: reset_def)
  have a: "read_StyleSet (reset (foldl apply_style_op initial_styles ops))
             = read_StyleSet initial_styles"
    using read_styles_prefix [OF ext']
    by (simp add: read_StyleSet_def reset_def initial_styles_def)
  have b: "read_StyleSet initial_styles =
       [(''start'', default_style ''#a3e635'' ''#16a34a'' ''#15803d''),
        (''end'', default_style ''#f87171'' ''#e11d48'' ''#be123c''),
        (''decision'', default_style ''#fbbf24'' ''#f97316'' ''#ea580c''),
        (''process'', default_style ''#38bdf8'' ''#2563eb'' ''#1d4ed8'')]"
    by (simp add: read_StyleSet_def read_styles_def styles_at_def style_at_def
        initial_styles_def defaultNodeStyles_def)
  have c: "take 4 (style_objs (reset (foldl apply_style_op initial_styles ops)))
             = style_objs initial_styles"
    using ext'(1) by (simp add: initial_styles_def)
  have d: "take 1 (styles_objs (reset (foldl apply_style_op initial_styles ops)))
             = styles_objs initial_styles"
    using ext'(2) by (simp add: initial_styles_def)
  show ?thesis using a b c d by blast
qed

text \<open>
  C8.  The font-size field declares the range 8 to 24, but typing \<open>100\<close> into the field
  of the start type stores 100, and clearing the field stores \<open>NaN\<close>: the bound does not
  hold after such a change, although it holds initially.
\<close>

theorem fontSize_out_of_bounds:
  "fontSize_in_bounds (fontSize_of initial_styles ''start'')
   \<and> fontSize_of (fontSize_onChange ''start'' ''100'' initial_styles) ''start'' = Some (Num 100)
   \<and> \<not> fontSize_in_bounds (fontSize_of (fontSize_onChange ''start'' ''100'' initial_styles) ''start'')
   \<and> fontSize_of (fontSize_onChange ''start'' '''' initial_styles) ''start'' = Some NaN"
  by (simp add: fontSize_of_def fontSize_onChange_def handleStyleChange_def parseInt10_def
      read_StyleSet_def read_styles_def styles_at_def style_at_def initial_styles_def
      defaultNodeStyles_def default_style_def is_digit_def is_space_def digit_value_def Let_def)

section \<open>Theorems: layout adapter\<close>

lemma set_prop_keys_present:
  "k \<in> fst ` set ps \<Longrightarrow> map fst (set_prop k v ps) = map fst ps"
  by (induction ps) force+

lemma set_prop_keys_absent:
  "k \<notin> fst ` set ps \<Longrightarrow> map fst (set_prop k v ps) = map fst ps @ [k]"
  by (induction ps) auto

lemma register_nodes_keys:
  assumes "distinct (map fst (g_nodes g) @ map node_id ns)"
    and "''__proto__'' \<notin> node_id ` set ns"
  shows "map fst (g_nodes (foldl register_node g ns)) = map fst (g_nodes g) @ map node_id ns
       \<and> g_edges (foldl register_node g ns) = g_edges g"
  using assms
proof (induction ns arbitrary: g)
  case Nil
  show ?case by simp
next
  case (Cons n ns)
  have absent: "node_id n \<notin> fst ` set (g_nodes g)"
    using Cons.prems(1) by auto
  have np: "node_id n \<noteq> ''__proto__''"
    using Cons.prems(2) by auto
  have step: "map fst (g_nodes (register_node g n)) = map fst (g_nodes g) @ [node_id n]"
    using absent np by (simp add: register_node_def setNode_def set_prop_keys_absent)
  have edges_same: "g_edges (register_node g n) = g_edges g"
    by (simp add: register_node_def setNode_def)
  have d: "distinct (map fst (g_nodes (register_node g n)) @ map node_id ns)"
    using Cons.prems(1) step by simp
  have p: "''__proto__'' \<notin> node_id ` set ns"
    using Cons.prems(2) by auto
  from Cons.IH [OF d p] show ?case
    using step edges_same by simp
qed

lemma layout_keys:
  "layout dagre g = Some g' \<Longrightarrow>
     map fst (g_nodes g') = map fst (g_nodes g)
   \<and> map fst (g_edges g') = map fst (g_edges g)
   \<and> LayoutEdges g' = LayoutEdges g"
  by (auto simp: layout_def LayoutEdges_def comp_def split: option.splits)

lemma register_edge_nodes:
  assumes "edge_source e \<in> fst ` set (g_nodes g)" and "edge_target e \<in> fst ` set (g_nodes g)"
  shows "g_nodes (register_edge g e) = g_nodes g"
  using assms by (simp add: register_edge_def setEdge_def ensureNode_def Let_def)

lemma set_label_keeps:
  "map fst (set_label k val es) = map fst es
   \<and> map (\<lambda>x. fst (snd x)) (set_label k val es) = map (\<lambda>x. fst (snd x)) es"
  by (induction es) (simp_all add: set_label_def)

lemma register_edge_keyed:
  assumes "keyed g"
  shows "keyed (register_edge g e)
       \<and> set (map fst (g_edges (register_edge g e)))
           = insert (edge_key (edge_source e) (edge_target e)) (set (map fst (g_edges g)))
       \<and> set (LayoutEdges (register_edge g e))
           \<subseteq> insert (edge_source e, edge_target e) (set (LayoutEdges g))"
proof (cases "edge_key (edge_source e) (edge_target e) \<in> fst ` set (g_edges g)")
  case True
  let ?k = "edge_key (edge_source e) (edge_target e)"
  let ?val = "\<lparr> ev_label = edge_label e, ev_points = [], ev_anchor = None \<rparr>"
  have ge: "g_edges (register_edge g e) = set_label ?k ?val (g_edges g)"
    using True by (simp add: register_edge_def setEdge_def)
  have k1: "map fst (g_edges (register_edge g e)) = map fst (g_edges g)"
    and k2: "LayoutEdges (register_edge g e) = LayoutEdges g"
    using set_label_keeps [of ?k ?val "g_edges g"] by (simp_all add: ge LayoutEdges_def)
  have k3: "list_all (\<lambda>x. fst x = edge_key (fst (fst (snd x))) (snd (fst (snd x))))
              (set_label ?k ?val (g_edges g))"
    using assms by (auto simp: keyed_def set_label_def list_all_iff)
  show ?thesis
    using assms True k1 k2 k3 by (auto simp: keyed_def ge)
next
  case False
  let ?k = "edge_key (edge_source e) (edge_target e)"
  have "\<exists>val. g_edges (register_edge g e)
          = g_edges g @ [(?k, (edge_source e, edge_target e), val)]"
    using False by (simp add: register_edge_def setEdge_def ensureNode_def Let_def)
  then obtain val where ge: "g_edges (register_edge g e)
          = g_edges g @ [(?k, (edge_source e, edge_target e), val)]"
    by blast
  show ?thesis
    using assms False by (auto simp: keyed_def ge LayoutEdges_def)
qed

lemma register_edges_all:
  assumes "keyed g"
    and "\<forall>e \<in> set es. edge_source e \<in> fst ` set (g_nodes g)
                      \<and> edge_target e \<in> fst ` set (g_nodes g)"
  shows "g_nodes (foldl register_edge g es) = g_nodes g
       \<and> keyed (foldl register_edge g es)
       \<and> set (map fst (g_edges (foldl register_edge g es)))
           = set (map fst (g_edges g))
             \<union> (\<lambda>e. edge_key (edge_source e) (edge_target e)) ` set es
       \<and> set (LayoutEdges (foldl register_edge g es))
           \<subseteq> set (LayoutEdges g) \<union> (\<lambda>e. (edge_source e, edge_target e)) ` set es"
  using assms
proof (induction es arbitrary: g)
  case Nil
  then show ?case by simp
next
  case (Cons e es)
  have n: "g_nodes (register_edge g e) = g_nodes g"
    using Cons.prems(2) by (simp add: register_edge_nodes)
  have k: "keyed (register_edge g e)"
      "set (map fst (g_edges (register_edge g e)))
         = insert (edge_key (edge_source e) (edge_target e)) (set (map fst (g_edges g)))"
      "set (LayoutEdges (register_edge g e))
         \<subseteq> insert (edge_source e, edge_target e) (set (LayoutEdges g))"
    using register_edge_keyed [OF Cons.prems(1)] by simp_all
  have m: "\<forall>e' \<in> set es. edge_source e' \<in> fst ` set (g_nodes (register_edge g e))
                      \<and> edge_target e' \<in> fst ` set (g_nodes (register_edge g e))"
    using Cons.prems(2) n by simp
  note ih = Cons.IH [OF k(1) m]
  have a: "g_nodes (foldl register_edge g (e # es)) = g_nodes g"
    using ih n by simp
  have b: "keyed (foldl register_edge g (e # es))"
    using ih by simp
  have c: "set (map fst (g_edges (foldl register_edge g (e # es))))
           = set (map fst (g_edges g))
             \<union> (\<lambda>e. edge_key (edge_source e) (edge_target e)) ` set (e # es)"
    using ih k(2) by auto
  have d: "set (LayoutEdges (foldl register_edge g (e # es)))
           \<subseteq> set (LayoutEdges g) \<union> (\<lambda>e. (edge_source e, edge_target e)) ` set (e # es)"
    using ih k(3) by auto
  show ?case using a b c d by blast
qed

lemma keyed_keys_of_pairs:
  "keyed g \<Longrightarrow> map fst (g_edges g) = map (\<lambda>p. edge_key (fst p) (snd p)) (LayoutEdges g)"
  by (induction "g_edges g" arbitrary: g)
     (auto simp: keyed_def LayoutEdges_def list_all_iff intro!: map_cong [OF refl])

text \<open>On plain ids the key of an edge determines its end points.\<close>

lemma split_at_separator:
  "x \<notin> set v \<Longrightarrow> x \<notin> set v' \<Longrightarrow> v @ x # r = v' @ x # r' \<Longrightarrow> v = v' \<and> r = r'"
proof (induction v arbitrary: v')
  case Nil
  then show ?case by (cases v') auto
next
  case (Cons a v)
  then show ?case by (cases v') auto
qed

lemma edge_key_inj:
  assumes "CHR 0x01 \<notin> set v" and "CHR 0x01 \<notin> set v'"
    and "edge_key v w = edge_key v' w'"
  shows "v = v' \<and> w = w'"
proof -
  define r where "r = w @ [CHR 0x01, CHR 0x00]"
  define r' where "r' = w' @ [CHR 0x01, CHR 0x00]"
  have eq: "v @ CHR 0x01 # r = v' @ CHR 0x01 # r'"
    using assms(3) unfolding edge_key_def r_def r'_def by simp
  have "v = v' \<and> r = r'"
    by (rule split_at_separator [OF assms(1,2) eq])
  then show ?thesis unfolding r_def r'_def by simp
qed

lemma layout_adapter_nodes_edges:
  assumes "valid_diagram d"
    and "''__proto__'' \<notin> node_id ` set (nodes d)"
    and "layout_adapter dagre d = Some g"
  shows "LayoutNodes g = map node_id (nodes d)"
    and "distinct (LayoutEdges g)"
    and "set (LayoutEdges g) \<subseteq> (\<lambda>e. (edge_source e, edge_target e)) ` set (edges d)"
    and "length (LayoutEdges g)
           = card ((\<lambda>e. edge_key (edge_source e) (edge_target e)) ` set (edges d))"
    and "g_nodes (buildGraph d) = g_nodes (foldl register_node empty_graph (nodes d))"
proof -
  let ?base = "foldl register_node empty_graph (nodes d)"
  have dn: "distinct (map fst (g_nodes empty_graph) @ map node_id (nodes d))"
    using assms(1) by (simp add: valid_diagram_def empty_graph_def)
  have n: "map fst (g_nodes ?base) = map node_id (nodes d)" "g_edges ?base = []"
    using register_nodes_keys [OF dn assms(2)] by (simp_all add: empty_graph_def)
  have fs: "fst ` set (g_nodes ?base) = node_id ` set (nodes d)"
    using n(1) by (metis list.set_map)
  have kb: "keyed ?base"
    using n(2) by (simp add: keyed_def)
  have me: "\<forall>e \<in> set (edges d). edge_source e \<in> fst ` set (g_nodes ?base)
                              \<and> edge_target e \<in> fst ` set (g_nodes ?base)"
    using assms(1) fs by (simp add: valid_diagram_def list_all_iff)
  have e: "g_nodes (buildGraph d) = g_nodes ?base"
      "keyed (buildGraph d)"
      "set (map fst (g_edges (buildGraph d)))
         = (\<lambda>e. edge_key (edge_source e) (edge_target e)) ` set (edges d)"
      "set (LayoutEdges (buildGraph d)) \<subseteq> (\<lambda>e. (edge_source e, edge_target e)) ` set (edges d)"
    using register_edges_all [OF kb me] n(2) by (simp_all add: buildGraph_def LayoutEdges_def)
  have lay: "layout dagre (buildGraph d) = Some g"
    using assms(3) by (simp add: layout_adapter_def)
  note lk = layout_keys [OF lay]
  show "LayoutNodes g = map node_id (nodes d)"
    using lk e(1) n(1) by (simp add: LayoutNodes_def)
  show "g_nodes (buildGraph d) = g_nodes ?base" by (rule e(1))
  show sub: "set (LayoutEdges g) \<subseteq> (\<lambda>e. (edge_source e, edge_target e)) ` set (edges d)"
    using lk e(4) by simp
  have keys: "map fst (g_edges (buildGraph d))
                = map (\<lambda>p. edge_key (fst p) (snd p)) (LayoutEdges (buildGraph d))"
    using e(2) by (rule keyed_keys_of_pairs)
  have dk: "distinct (map fst (g_edges (buildGraph d)))"
    using e(2) by (simp add: keyed_def)
  show "distinct (LayoutEdges g)"
    using dk keys lk by (simp add: distinct_map)
  have "length (LayoutEdges g) = length (map fst (g_edges (buildGraph d)))"
    using lk by (simp add: LayoutEdges_def)
  also have "\<dots> = card (set (map fst (g_edges (buildGraph d))))"
    by (rule distinct_card [OF dk, symmetric])
  finally show "length (LayoutEdges g)
           = card ((\<lambda>e. edge_key (edge_source e) (edge_target e)) ` set (edges d))"
    using e(3) by simp
qed

text \<open>
  C3, as the code has it.  For every valid Diagram with N nodes and M edges whose node
  ids are plain (not \<open>__proto__\<close>, without U+0001), whenever the layout returns, the
  layout adapter produces exactly N LayoutNodes, whose ids are the input node ids;
  the LayoutEdges are the distinct (source, target) pairs of the edges, so there are
  exactly M of them when no two edges share both source and target.
\<close>

theorem layout_adapter_counts:
  assumes "valid_diagram d"
    and "list_all (\<lambda>n. plain_id (node_id n)) (nodes d)"
    and "layout_adapter dagre d = Some g"
  shows "length (LayoutNodes g) = length (nodes d)
       \<and> set (LayoutNodes g) = node_id ` set (nodes d)
       \<and> set (LayoutEdges g) = (\<lambda>e. (edge_source e, edge_target e)) ` set (edges d)
       \<and> length (LayoutEdges g)
           = card ((\<lambda>e. (edge_source e, edge_target e)) ` set (edges d))
       \<and> (distinct (map (\<lambda>e. (edge_source e, edge_target e)) (edges d))
            \<longrightarrow> length (LayoutEdges g) = length (edges d))"
proof -
  let ?pair = "\<lambda>e. (edge_source e, edge_target e)"
  let ?key = "\<lambda>p. edge_key (fst p) (snd p)"
  have np: "''__proto__'' \<notin> node_id ` set (nodes d)"
    using assms(2) by (auto simp: list_all_iff plain_id_def)
  note f = layout_adapter_nodes_edges [OF assms(1) np assms(3)]
  have a: "length (LayoutNodes g) = length (nodes d)"
    using f(1) by simp
  have b: "set (LayoutNodes g) = node_id ` set (nodes d)"
    using f(1) by simp
  have plain_src: "CHR 0x01 \<notin> set (fst p)" if "p \<in> ?pair ` set (edges d)" for p
  proof -
    from that obtain e where e: "e \<in> set (edges d)" "p = ?pair e" by auto
    then obtain n where "n \<in> set (nodes d)" "node_id n = edge_source e"
      using assms(1) by (auto simp: valid_diagram_def list_all_iff)
    then show ?thesis using assms(2) e(2) by (auto simp: list_all_iff plain_id_def)
  qed
  have inj: "inj_on ?key (?pair ` set (edges d))"
  proof (rule inj_onI)
    fix p q assume p: "p \<in> ?pair ` set (edges d)" and q: "q \<in> ?pair ` set (edges d)"
      and eq: "?key p = ?key q"
    have "fst p = fst q \<and> snd p = snd q"
      using edge_key_inj [OF plain_src [OF p] plain_src [OF q] eq] .
    then show "p = q" by (simp add: prod_eq_iff)
  qed
  have img: "(\<lambda>e. edge_key (edge_source e) (edge_target e)) ` set (edges d)
               = ?key ` (?pair ` set (edges d))"
    by (simp add: image_image)
  have c: "length (LayoutEdges g) = card (?pair ` set (edges d))"
    using f(4) img card_image [OF inj] by simp
  have "card (set (LayoutEdges g)) = card (?pair ` set (edges d))"
    using c f(2) by (simp add: distinct_card)
  then have s: "set (LayoutEdges g) = ?pair ` set (edges d)"
    using f(3) by (simp add: card_subset_eq)
  have e: "length (LayoutEdges g) = length (edges d)"
    if "distinct (map ?pair (edges d))"
    using c distinct_card [OF that] by simp
  show ?thesis using a b s c e by blast
qed

theorem layout_adapter_counts_witness:
  "valid_diagram chain_diagram
   \<and> list_all (\<lambda>n. plain_id (node_id n)) (nodes chain_diagram)
   \<and> distinct (map (\<lambda>e. (edge_source e, edge_target e)) (edges chain_diagram))
   \<and> map_option LayoutNodes (layout_adapter sample_dagre chain_diagram) = Some [''a'', ''b'']
   \<and> map_option LayoutEdges (layout_adapter sample_dagre chain_diagram) = Some [(''a'', ''b'')]
   \<and> map_option (\<lambda>g. length (LayoutNodes g)) (layout_adapter sample_dagre chain_diagram)
       = Some (length (nodes chain_diagram))
   \<and> map_option (\<lambda>g. length (LayoutEdges g)) (layout_adapter sample_dagre chain_diagram)
       = Some (length (edges chain_diagram))"
proof -
  obtain g where g: "layout_adapter sample_dagre chain_diagram = Some g"
    by (simp add: layout_adapter_def layout_def sample_dagre_def chain_diagram_def
        buildGraph_def register_node_def register_edge_def setNode_def setEdge_def
        ensureNode_def empty_graph_def Let_def)
  have v: "valid_diagram chain_diagram"
    by (simp add: valid_diagram_def chain_diagram_def)
  have p: "list_all (\<lambda>n. plain_id (node_id n)) (nodes chain_diagram)"
    by (simp add: plain_id_def chain_diagram_def)
  have dp: "distinct (map (\<lambda>e. (edge_source e, edge_target e)) (edges chain_diagram))"
    by (simp add: chain_diagram_def)
  note t = layout_adapter_counts [OF v p g]
  have n: "LayoutNodes g = [''a'', ''b'']" and e: "LayoutEdges g = [(''a'', ''b'')]"
    using g
    by (auto simp: layout_adapter_def layout_def sample_dagre_def chain_diagram_def
        buildGraph_def register_node_def register_edge_def setNode_def setEdge_def
        ensureNode_def empty_graph_def LayoutNodes_def LayoutEdges_def Let_def)
  show ?thesis using v p dp t n e by (simp add: g)
qed

text \<open>
  C3 as stated fails: a valid Diagram with two edges from \<open>a\<close> to \<open>b\<close> (M = 2) yields a
  single LayoutEdge, because the graph keys an edge by its end points.
\<close>

theorem layout_adapter_merges_parallel_edges:
  "valid_diagram two_way_diagram
   \<and> length (edges two_way_diagram) = 2
   \<and> map_option LayoutEdges (layout_adapter sample_dagre two_way_diagram) = Some [(''a'', ''b'')]
   \<and> map_option (\<lambda>g. length (LayoutEdges g)) (layout_adapter sample_dagre two_way_diagram)
        \<noteq> Some (length (edges two_way_diagram))"
  by (simp add: valid_diagram_def two_way_diagram_def layout_adapter_def layout_def buildGraph_def
      register_node_def register_edge_def setNode_def setEdge_def ensureNode_def empty_graph_def
      set_label_def edge_key_def sample_dagre_def LayoutEdges_def Let_def)

text \<open>
  Outside the plain ids: a node called \<open>__proto__\<close> is not listed, and on an empty
  node id the sample layout throws, so nothing is produced.
\<close>

lemma proto_node_not_listed:
  "valid_diagram proto_diagram
   \<and> length (nodes proto_diagram) = 2
   \<and> map_option LayoutNodes (layout_adapter sample_dagre proto_diagram) = Some [''a'']"
  by (simp add: valid_diagram_def proto_diagram_def layout_adapter_def layout_def buildGraph_def
      register_node_def setNode_def empty_graph_def sample_dagre_def LayoutNodes_def)

section \<open>Theorems: drag and repaint\<close>


lemma those_map_Some:
  "those (map f xs) = Some ys \<Longrightarrow>
     length ys = length xs \<and> (\<forall>i<length xs. f (xs ! i) = Some (ys ! i))"
proof (induction xs arbitrary: ys)
  case Nil
  then show ?case by simp
next
  case (Cons x xs)
  from Cons.prems obtain y zs where y: "f x = Some y" and zs: "those (map f xs) = Some zs"
    and ys: "ys = y # zs"
    by (auto split: option.splits)
  from Cons.IH [OF zs] show ?case using y ys by (auto simp: nth_Cons')
qed

lemma those_map_total:
  "(\<forall>x \<in> set xs. f x \<noteq> None) \<Longrightarrow> \<exists>ys. those (map f xs) = Some ys"
  by (induction xs) auto

lemma map_of_set_prop:
  "map_of (set_prop k v ps) k' = (if k' = k then Some v else map_of ps k')"
  by (induction ps) auto

text \<open>
  Painting the layout of a valid Diagram succeeds, and in the scene every node and
  every end point of an edge has a centre.
\<close>

lemma set_prop_set: "set (set_prop k v ps) \<subseteq> insert (k, v) (set ps)"
proof (induction ps)
  case Nil
  show ?case by simp
next
  case (Cons p ps)
  obtain k' v' where p: "p = (k', v')" by (cases p)
  show ?case using Cons.IH by (cases "k' = k") (auto simp: p)
qed

lemma register_nodes_values:
  "\<forall>p \<in> set (g_nodes g). snd p \<noteq> None \<Longrightarrow>
     \<forall>p \<in> set (g_nodes (foldl register_node g ns)). snd p \<noteq> None"
proof (induction ns arbitrary: g)
  case Nil
  then show ?case by simp
next
  case (Cons n ns)
  have "\<forall>p \<in> set (g_nodes (register_node g n)). snd p \<noteq> None"
  proof
    fix p assume p: "p \<in> set (g_nodes (register_node g n))"
    show "snd p \<noteq> None"
    proof (cases "node_id n = ''__proto__''")
      case True
      then have "g_nodes (register_node g n) = g_nodes g"
        by (simp add: register_node_def setNode_def)
      then show ?thesis using p Cons.prems by simp
    next
      case False
      then obtain val where "p \<in> insert (node_id n, Some val) (set (g_nodes g))"
        using p set_prop_set [of "node_id n" _ "g_nodes g"]
        unfolding register_node_def setNode_def by force
      then show ?thesis using Cons.prems by auto
    qed
  qed
  from Cons.IH [OF this] show ?case by simp
qed

lemma those_map_eq:
  "\<forall>x \<in> set xs. f x = Some (h x) \<Longrightarrow> those (map f xs) = Some (map h xs)"
  by (induction xs) auto

lemma paint_valid_diagram:
  assumes "valid_diagram d"
    and "''__proto__'' \<notin> node_id ` set (nodes d)"
    and "layout_adapter dagre d = Some g"
  shows "\<exists>sc. paint g = Some sc
            \<and> map fst (sc_pos sc) = map node_id (nodes d)
            \<and> (\<forall>e \<in> set (sc_edges sc). map_of (sc_pos sc) (e_v e) \<noteq> None
                                       \<and> map_of (sc_pos sc) (e_w e) \<noteq> None)"
proof -
  note f = layout_adapter_nodes_edges [OF assms]
  obtain r where r: "dagre (buildGraph d) = Some r"
    using assms(3) by (auto simp: layout_adapter_def layout_def split: option.splits)
  have vals: "\<forall>p \<in> set (g_nodes (buildGraph d)). snd p \<noteq> None"
    using register_nodes_values [of empty_graph "nodes d"] f(5) by (simp add: empty_graph_def)
  have gl: "g_nodes g = map (\<lambda>p. (fst p, map_option (\<lambda>nv. nv \<lparr> nv_pos := Some (lr_pos r (fst p)) \<rparr>)
                                              (snd p))) (g_nodes (buildGraph d))"
    and ge: "g_edges g = map (\<lambda>x. (fst x, fst (snd x),
                                       (snd (snd x)) \<lparr> ev_points := lr_points r (fst (snd x)),
                                                       ev_anchor := lr_anchor r (fst (snd x)) \<rparr>))
                             (g_edges (buildGraph d))"
    using assms(3) r by (auto simp: layout_adapter_def layout_def)
  have each: "\<forall>p \<in> set (g_nodes g). paint_node p = Some (fst p, lr_pos r (fst p))"
  proof
    fix p assume "p \<in> set (g_nodes g)"
    then obtain q where q: "q \<in> set (g_nodes (buildGraph d))"
      and p: "p = (fst q, map_option (\<lambda>nv. nv \<lparr> nv_pos := Some (lr_pos r (fst q)) \<rparr>) (snd q))"
      unfolding gl by auto
    obtain nv where "snd q = Some nv" using vals q by auto
    then show "paint_node p = Some (fst p, lr_pos r (fst p))"
      by (simp add: p paint_node_def)
  qed
  define sc where "sc = \<lparr> sc_pos = map (\<lambda>p. (fst p, lr_pos r (fst p))) (g_nodes g),
                          sc_node_at = map (\<lambda>p. (fst p, lr_pos r (fst p))) (g_nodes g),
                          sc_edges = map (\<lambda>x. paint_edge (snd x)) (g_edges g) \<rparr>"
  have p: "paint g = Some sc"
    using those_map_eq [OF each] by (simp add: paint_def sc_def)
  have keys: "map fst (sc_pos sc) = map node_id (nodes d)"
    using f(1) by (simp add: sc_def LayoutNodes_def comp_def)
  have dom: "map_of (sc_pos sc) v \<noteq> None" if "v \<in> node_id ` set (nodes d)" for v
  proof -
    have "v \<in> fst ` set (sc_pos sc)" using that keys by (metis list.set_map)
    then show ?thesis by (simp add: map_of_eq_None_iff)
  qed
  have ends: "e_v e \<in> node_id ` set (nodes d) \<and> e_w e \<in> node_id ` set (nodes d)"
    if "e \<in> set (sc_edges sc)" for e
  proof -
    from that obtain q where q: "q \<in> set (g_edges g)" and e: "e = paint_edge (snd q)"
      by (auto simp: sc_def)
    have "fst (snd q) \<in> set (LayoutEdges g)" using q by (simp add: LayoutEdges_def)
    then obtain e0 where e0: "e0 \<in> set (edges d)" "fst (snd q) = (edge_source e0, edge_target e0)"
      using f(3) by auto
    have "e_v e = edge_source e0" "e_w e = edge_target e0"
      using e e0(2) by (simp_all add: paint_edge_def)
    then show ?thesis
      using assms(1) e0(1) by (simp add: valid_diagram_def list_all_iff)
  qed
  have all: "\<forall>e \<in> set (sc_edges sc). map_of (sc_pos sc) (e_v e) \<noteq> None
                                       \<and> map_of (sc_pos sc) (e_w e) \<noteq> None"
  proof
    fix e assume e: "e \<in> set (sc_edges sc)"
    show "map_of (sc_pos sc) (e_v e) \<noteq> None \<and> map_of (sc_pos sc) (e_w e) \<noteq> None"
      using ends [OF e] dom [of "e_v e"] dom [of "e_w e"] by simp
  qed
  from p keys all have "paint g = Some sc
      \<and> map fst (sc_pos sc) = map node_id (nodes d)
      \<and> (\<forall>e \<in> set (sc_edges sc). map_of (sc_pos sc) (e_v e) \<noteq> None
                                   \<and> map_of (sc_pos sc) (e_w e) \<noteq> None)"
    by (intro conjI)
  then show ?thesis by (rule exI [of _ sc])
qed

lemma drag_keeps_nodes:
  assumes "drag A p sc = Some sc'"
  shows "map fst (sc_pos sc') = map fst (sc_pos sc)"
proof -
  have present: "map_of (sc_pos sc) A \<noteq> None"
    using assms by (auto simp: drag_def split: if_splits)
  then have "A \<in> fst ` set (sc_pos sc)"
    by (simp add: map_of_eq_None_iff)
  then have "map fst (set_prop A p (sc_pos sc)) = map fst (sc_pos sc)"
    by (rule set_prop_keys_present)
  moreover have "sc_pos sc' = set_prop A p (sc_pos sc)"
    using assms present by (auto simp: drag_def Let_def split: option.splits)
  ultimately show ?thesis by simp
qed

text \<open>
  C10, as the code has it.  In a scene where the dragged node \<open>A\<close> and the end
  points of every edge have a centre, a drag event that moves \<open>A\<close> to \<open>p\<close> succeeds;
  \<open>A\<close>'s centre is \<open>p\<close> and no other centre moves; every edge with source or target
  \<open>A\<close> is redrawn as the 2-point line between the current centres of its end points,
  one of which is \<open>p\<close>; where such an edge has a label, the label's anchor and
  position are the midpoint of the two, and where it has none, its data, the anchor
  included, stay as they were; every edge with both end points different from \<open>A\<close>
  is unchanged.
\<close>

theorem drag_redraws_incident_edges:
  assumes "map_of (sc_pos sc) A \<noteq> None"
    and "\<forall>e \<in> set (sc_edges sc). map_of (sc_pos sc) (e_v e) \<noteq> None
                                \<and> map_of (sc_pos sc) (e_w e) \<noteq> None"
  shows "\<exists>sc'. drag A p sc = Some sc'
      \<and> map_of (sc_pos sc') A = Some p
      \<and> (\<forall>v. v \<noteq> A \<longrightarrow> map_of (sc_pos sc') v = map_of (sc_pos sc) v)
      \<and> length (sc_edges sc') = length (sc_edges sc)
      \<and> (\<forall>i < length (sc_edges sc).
            e_v (sc_edges sc' ! i) = e_v (sc_edges sc ! i)
          \<and> e_w (sc_edges sc' ! i) = e_w (sc_edges sc ! i)
          \<and> (if e_v (sc_edges sc ! i) = A \<or> e_w (sc_edges sc ! i) = A
              then (\<exists>s t. map_of (sc_pos sc') (e_v (sc_edges sc ! i)) = Some s
                        \<and> map_of (sc_pos sc') (e_w (sc_edges sc ! i)) = Some t
                        \<and> e_path (sc_edges sc' ! i) = [s, t]
                        \<and> (s = p \<or> t = p)
                        \<and> (e_label_at (sc_edges sc ! i) \<noteq> None \<longrightarrow>
                              e_label_at (sc_edges sc' ! i) = Some (Some (midpoint s t))
                            \<and> ev_anchor (e_data (sc_edges sc' ! i)) = Some (midpoint s t))
                        \<and> (e_label_at (sc_edges sc ! i) = None \<longrightarrow>
                              e_label_at (sc_edges sc' ! i) = None
                            \<and> e_data (sc_edges sc' ! i) = e_data (sc_edges sc ! i)))
              else sc_edges sc' ! i = sc_edges sc ! i))"
proof -
  define pos' where "pos' = set_prop A p (sc_pos sc)"
  have pos'A: "map_of pos' A = Some p"
    by (simp add: pos'_def map_of_set_prop)
  have pos'other: "map_of pos' v = map_of (sc_pos sc) v" if "v \<noteq> A" for v
    using that by (simp add: pos'_def map_of_set_prop)
  have present: "map_of pos' (e_v e) \<noteq> None \<and> map_of pos' (e_w e) \<noteq> None"
    if "e \<in> set (sc_edges sc)" for e
    using that assms(2) by (auto simp: pos'_def map_of_set_prop)
  have total: "\<forall>e \<in> set (sc_edges sc). drag_edge pos' A e \<noteq> None"
  proof
    fix e assume e: "e \<in> set (sc_edges sc)"
    obtain s t where "map_of pos' (e_v e) = Some s" "map_of pos' (e_w e) = Some t"
      using present [OF e] by auto
    then show "drag_edge pos' A e \<noteq> None" by (simp add: drag_edge_def)
  qed
  obtain es where es: "those (map (drag_edge pos' A) (sc_edges sc)) = Some es"
    using those_map_total [OF total] by blast
  note each = those_map_Some [OF es]
  define sc' where "sc' = \<lparr> sc_pos = pos', sc_node_at = set_prop A p (sc_node_at sc), sc_edges = es \<rparr>"
  have d: "drag A p sc = Some sc'"
    using assms(1) es by (simp add: drag_def sc'_def pos'_def Let_def)
  have edge: "e_v (es ! i) = e_v (sc_edges sc ! i)
          \<and> e_w (es ! i) = e_w (sc_edges sc ! i)
          \<and> (if e_v (sc_edges sc ! i) = A \<or> e_w (sc_edges sc ! i) = A
              then (\<exists>s t. map_of pos' (e_v (sc_edges sc ! i)) = Some s
                        \<and> map_of pos' (e_w (sc_edges sc ! i)) = Some t
                        \<and> e_path (es ! i) = [s, t]
                        \<and> (s = p \<or> t = p)
                        \<and> (e_label_at (sc_edges sc ! i) \<noteq> None \<longrightarrow>
                              e_label_at (es ! i) = Some (Some (midpoint s t))
                            \<and> ev_anchor (e_data (es ! i)) = Some (midpoint s t))
                        \<and> (e_label_at (sc_edges sc ! i) = None \<longrightarrow>
                              e_label_at (es ! i) = None
                            \<and> e_data (es ! i) = e_data (sc_edges sc ! i)))
              else es ! i = sc_edges sc ! i)"
    if i: "i < length (sc_edges sc)" for i
  proof -
    let ?e = "sc_edges sc ! i"
    have mem: "?e \<in> set (sc_edges sc)" using i by simp
    have r: "drag_edge pos' A ?e = Some (es ! i)" using each i by simp
    obtain s t where s: "map_of pos' (e_v ?e) = Some s" and t: "map_of pos' (e_w ?e) = Some t"
      using present [OF mem] by auto
    show ?thesis
    proof (cases "e_v ?e = A \<or> e_w ?e = A")
      case False
      then have "es ! i = ?e" using r by (simp add: drag_edge_def)
      then show ?thesis using False by simp
    next
      case True
      have st: "s = p \<or> t = p" using True s t pos'A by auto
      have ei: "es ! i = (if e_label_at ?e = None
                           then ?e \<lparr> e_path := [s, t] \<rparr>
                           else ?e \<lparr> e_data := (e_data ?e) \<lparr> ev_anchor := Some (midpoint s t) \<rparr>,
                                    e_path := [s, t],
                                    e_label_at := Some (Some (midpoint s t)) \<rparr>)"
        using True r s t by (simp add: drag_edge_def)
      show ?thesis
        using True s t st by (simp add: ei)
    qed
  qed
  have sp: "sc_pos sc' = pos'" and se: "sc_edges sc' = es"
    by (simp_all add: sc'_def)
  have len: "length es = length (sc_edges sc)" using each by simp
  show ?thesis
    unfolding sp [symmetric] se [symmetric]
    using d pos'A pos'other len edge
    unfolding sp [symmetric] se [symmetric]
    by blast
qed

theorem drag_redraws_incident_edges_witness:
  "map_of (sc_pos sample_scene) ''a'' = Some (75, 30)
   \<and> map (\<lambda>e. (map_of (sc_pos sample_scene) (e_v e), map_of (sc_pos sample_scene) (e_w e)))
         (sc_edges sample_scene)
       = [(Some (75, 30), Some (75, 170)), (Some (75, 170), Some (75, 310))]
   \<and> drag ''a'' (200, 50) sample_scene =
       Some \<lparr> sc_pos = [(''a'', (200, 50)), (''b'', (75, 170)), (''c'', (75, 310))],
              sc_node_at = [(''a'', (200, 50)), (''b'', (75, 170)), (''c'', (75, 310))],
              sc_edges =
                [\<lparr> e_v = ''a'', e_w = ''b'',
                   e_data = \<lparr> ev_label = Some ''Yes'', ev_points = [(75, 60), (75, 100), (75, 140)],
                              ev_anchor = Some (275 / 2, 110) \<rparr>,
                   e_path = [(200, 50), (75, 170)], e_label_at = Some (Some (275 / 2, 110)) \<rparr>,
                 sc_edges sample_scene ! 1] \<rparr>"
  using drag_redraws_incident_edges [of sample_scene "''a''" "(200, 50)"]
  by (simp add: sample_scene_def drag_def drag_edge_def midpoint_def Let_def)

text \<open>
  C10 as stated fails: an incident edge without a label is redrawn, but its label
  anchor is not recomputed.  Dragging \<open>a\<close> redraws both edges of the scene as 2-point
  lines; the anchor of the first stays where the layout put it and the second still
  has none, and neither is the midpoint of the two centres.
\<close>

theorem drag_leaves_unlabelled_anchor:
  "drag ''a'' (200, 50) unlabelled_scene =
     Some \<lparr> sc_pos = [(''a'', (200, 50)), (''b'', (75, 170)), (''c'', (225, 170))],
            sc_node_at = [(''a'', (200, 50)), (''b'', (75, 170)), (''c'', (225, 170))],
            sc_edges =
              [\<lparr> e_v = ''a'', e_w = ''b'',
                 e_data = \<lparr> ev_label = None, ev_points = [(75, 60), (75, 100), (75, 140)],
                            ev_anchor = Some (75, 100) \<rparr>,
                 e_path = [(200, 50), (75, 170)], e_label_at = None \<rparr>,
               \<lparr> e_v = ''a'', e_w = ''c'',
                 e_data = \<lparr> ev_label = None, ev_points = [(75, 60), (150, 100), (225, 140)],
                            ev_anchor = None \<rparr>,
                 e_path = [(200, 50), (225, 170)], e_label_at = None \<rparr>] \<rparr>
   \<and> midpoint (200, 50) (75, 170) = (275 / 2, 110)
   \<and> midpoint (200, 50) (225, 170) = (425 / 2, 110)
   \<and> Some (75, 100) \<noteq> Some (midpoint (200, 50) (75, 170))
   \<and> None \<noteq> Some (midpoint (200, 50) (225, 170))"
  by (simp add: unlabelled_scene_def drag_def drag_edge_def midpoint_def Let_def)

lemma paint_effect_fresh:
  "fc_data fc = fc_data fc' \<Longrightarrow>
     fc_view (paint_effect env fc) = fc_view (paint_effect env fc')
   \<and> fc_scene (paint_effect env fc) = fc_scene (paint_effect env fc')
   \<and> fc_data (paint_effect env fc) = fc_data fc"
  by (simp add: paint_effect_def Let_def split: option.splits)

text \<open>
  C9, as the code has it.  A style change leaves the Diagram as it is and repaints,
  and the repaint runs the auto-fit again: the scene and the view transform after
  the change are those of painting the same Diagram anew, whatever the view was
  before; when something is painted, the layout has returned and the view is the
  auto-fit of the laid-out size.
\<close>

theorem restyle_reruns_auto_fit:
  assumes "fc_data fc = Some d"
  shows "fc_data (change_style env t k v fc) = Some d
       \<and> fc_view (change_style env t k v fc) = fc_view (receive_data env (Some d) fc0)
       \<and> fc_scene (change_style env t k v fc) = fc_scene (receive_data env (Some d) fc0)
       \<and> (fc_scene (change_style env t k v fc) \<noteq> None \<longrightarrow>
            (\<exists>r. env_dagre env (buildGraph d) = Some r
               \<and> fc_view (change_style env t k v fc)
                   = auto_fit (env_container env) (Some (lr_size r))))"
proof -
  have same: "fc_data (fc \<lparr> fc_styles := handleStyleChange t k v (fc_styles fc) \<rparr>)
                = fc_data (fc0 \<lparr> fc_data := Some d \<rparr>)"
    using assms by simp
  note fresh = paint_effect_fresh [OF same, of env]
  have fit: "\<exists>r. env_dagre env (buildGraph d) = Some r
               \<and> fc_view (paint_effect env fc1)
                   = auto_fit (env_container env) (Some (lr_size r))"
    if "fc_data fc1 = Some d" and "fc_scene (paint_effect env fc1) \<noteq> None" for fc1
    using that
    by (auto simp: paint_effect_def layout_adapter_def layout_def Let_def
        split: option.splits if_splits)
  show ?thesis
    using fresh assms fit [of "fc \<lparr> fc_styles := handleStyleChange t k v (fc_styles fc) \<rparr>"]
    by (simp add: change_style_def receive_data_def)
qed

theorem restyle_reruns_auto_fit_witness:
  "fc_data zoomed_flowchart = Some chain_diagram
   \<and> fc_scene (change_style sample_env ''start'' color1 (Str ''#000000'') zoomed_flowchart) \<noteq> None
   \<and> fc_view (change_style sample_env ''start'' color1 (Str ''#000000'') zoomed_flowchart)
       = fc_view (receive_data sample_env (Some chain_diagram) initial_flowchart)
   \<and> fc_view (change_style sample_env ''start'' color1 (Str ''#000000'') zoomed_flowchart)
       = Some \<lparr> vt_x = 575 / 2, vt_y = 255, vt_k = 3 / 2 \<rparr>"
  using restyle_reruns_auto_fit [of zoomed_flowchart chain_diagram sample_env
      "''start''" color1 "Str ''#000000''" initial_flowchart]
  by (simp add: zoomed_flowchart_def zoom_to_def receive_data_def change_style_def
      paint_effect_def initial_flowchart_def sample_env_def chain_diagram_def
      layout_adapter_def layout_def buildGraph_def register_node_def register_edge_def
      setNode_def setEdge_def ensureNode_def empty_graph_def paint_def paint_node_def
      paint_edge_def sample_dagre_def auto_fit_def Let_def)

text \<open>
  C9 as stated fails: after the user has set the view to the identity, changing one
  colour of the start type, with the Diagram unchanged, puts the view back to the
  auto-fit transform.
\<close>

theorem restyle_resets_user_view:
  "fc_view zoomed_flowchart = Some \<lparr> vt_x = 0, vt_y = 0, vt_k = 1 \<rparr>
   \<and> fc_data (change_style sample_env ''start'' color1 (Str ''#000000'') zoomed_flowchart)
       = fc_data zoomed_flowchart
   \<and> fc_view (change_style sample_env ''start'' color1 (Str ''#000000'') zoomed_flowchart)
       = Some \<lparr> vt_x = 575 / 2, vt_y = 255, vt_k = 3 / 2 \<rparr>
   \<and> fc_view (change_style sample_env ''start'' color1 (Str ''#000000'') zoomed_flowchart)
       \<noteq> fc_view zoomed_flowchart"
  by (simp add: zoomed_flowchart_def zoom_to_def receive_data_def change_style_def
      paint_effect_def initial_flowchart_def sample_env_def chain_diagram_def
      layout_adapter_def layout_def buildGraph_def register_node_def register_edge_def
      setNode_def setEdge_def ensureNode_def empty_graph_def paint_def paint_node_def
      paint_edge_def sample_dagre_def auto_fit_def Let_def)

section \<open>Theorems: ingestion and retries\<close>


lemma generateFlowFromScript_cases:
  "generateFlowFromScript rt provider =
     (case try_body rt (provider 0) of
        Inr pd \<Rightarrow> \<lparr> calls = 1, delays = [], result = Inr pd \<rparr>
      | Inl e0 \<Rightarrow>
          if \<not> isRateLimitError e0
          then \<lparr> calls = 1, delays = [],
                 result = Inl (''Failed to generate flowchart: '' @ finalErrorMessage rt e0) \<rparr>
          else (case try_body rt (provider 1) of
                  Inr pd \<Rightarrow> \<lparr> calls = 2, delays = [2000], result = Inr pd \<rparr>
                | Inl e1 \<Rightarrow>
                    if \<not> isRateLimitError e1
                    then \<lparr> calls = 2, delays = [2000],
                           result = Inl (''Failed to generate flowchart: '' @ finalErrorMessage rt e1) \<rparr>
                    else (case try_body rt (provider 2) of
                            Inr pd \<Rightarrow> \<lparr> calls = 3, delays = [2000, 4000], result = Inr pd \<rparr>
                          | Inl e2 \<Rightarrow>
                              \<lparr> calls = 3, delays = [2000, 4000],
                                result = Inl (''Failed to generate flowchart: ''
                                              @ finalErrorMessage rt e2) \<rparr>)))"
  by (simp add: generateFlowFromScript_def maxRetries_def
      attempt_loop.simps [of rt provider 0] attempt_loop.simps [of rt provider 1]
      attempt_loop.simps [of rt provider 2]
      numeral_2_eq_2 [symmetric] split: sum.splits)

lemma finalErrorMessage_plain:
  "CHR ''{'' \<notin> set m \<Longrightarrow> finalErrorMessage rt (Error m) = m"
proof -
  assume a: "CHR ''{'' \<notin> set m"
  have dw: "dropWhile (\<lambda>c. c \<noteq> CHR ''{'') m = []"
    using a by (auto simp: dropWhile_eq_Nil_conv)
  show ?thesis by (simp add: finalErrorMessage_def match_braces_def dw)
qed

text \<open>
  What the retry loop does with the provider's own failures: a thrown \<open>Error\<close> whose
  message does not contain 429, or a thrown value that is no \<open>Error\<close>, ends the call
  at once; three rate-limit errors in a row end it after delays of 2000 and 4000 ms;
  two of them followed by a payload that passes return that payload after the same
  delays.  The provider is never called more than three times.
\<close>

lemma provider_error_surfaces:
  assumes "provider 0 = Throws (Error m)" and "\<not> str_includes m ''429''"
  shows "generateFlowFromScript rt provider
           = \<lparr> calls = 1, delays = [],
               result = Inl (''Failed to generate flowchart: '' @ finalErrorMessage rt (Error m)) \<rparr>"
  using assms by (simp add: generateFlowFromScript_cases try_body_def isRateLimitError_def)

lemma provider_non_error_surfaces:
  assumes "provider 0 = Throws NonError"
  shows "generateFlowFromScript rt provider
           = \<lparr> calls = 1, delays = [],
               result = Inl (''Failed to generate flowchart: ''
                             @ ''An unknown error occurred while communicating with the AI.'') \<rparr>"
  using assms
  by (simp add: generateFlowFromScript_cases try_body_def isRateLimitError_def
      finalErrorMessage_def)

lemma rate_limit_exhausted:
  assumes "provider 0 = Throws (Error m0)" and "str_includes m0 ''429''"
    and "provider 1 = Throws (Error m1)" and "str_includes m1 ''429''"
    and "provider 2 = Throws (Error m2)"
  shows "generateFlowFromScript rt provider
           = \<lparr> calls = 3, delays = [2000, 4000],
               result = Inl (''Failed to generate flowchart: '' @ finalErrorMessage rt (Error m2)) \<rparr>"
  using assms by (simp add: generateFlowFromScript_cases try_body_def isRateLimitError_def)

lemma rate_limit_then_success:
  assumes "provider 0 = Throws (Error m0)" and "str_includes m0 ''429''"
    and "provider 1 = Throws (Error m1)" and "str_includes m1 ''429''"
    and "provider 2 = Parsed pd" and "validate rt pd = Inr pd"
  shows "generateFlowFromScript rt provider
           = \<lparr> calls = 3, delays = [2000, 4000], result = Inr pd \<rparr>
       \<and> 2000 + 4000 \<le> sum_list (delays (generateFlowFromScript rt provider))"
  using assms by (simp add: generateFlowFromScript_cases try_body_def isRateLimitError_def)

lemma rate_limit_then_success_example:
  "generateFlowFromScript sample_runtime busy_provider
     = \<lparr> calls = 3, delays = [2000, 4000], result = Inr good_payload \<rparr>"
proof -
  have v: "validate sample_runtime good_payload = Inr good_payload"
    by (simp add: validate_def good_payload_def payload_def check_node_def check_edge_def
        node_types_def Let_def)
  have i: "str_includes ''got status: 429 Too Many Requests'' ''429''"
    by (simp add: starts_with_def)
  have p: "busy_provider 0 = Throws (Error ''got status: 429 Too Many Requests'')"
      "busy_provider 1 = Throws (Error ''got status: 429 Too Many Requests'')"
      "busy_provider 2 = Parsed good_payload"
    by (simp_all add: busy_provider_def)
  show ?thesis using rate_limit_then_success [OF p(1) i p(2) i p(3) v] by simp
qed

lemma at_most_three_calls:
  "1 \<le> calls (generateFlowFromScript rt provider)
   \<and> calls (generateFlowFromScript rt provider) \<le> 3
   \<and> delays (generateFlowFromScript rt provider)
       = take (calls (generateFlowFromScript rt provider) - 1) [2000, 4000]"
  by (simp add: generateFlowFromScript_cases split: sum.splits)

text \<open>
  C2.  The loop takes every \<open>Error\<close> whose message contains 429 for a rate limit, and
  the messages of the validation quote the payload.  A payload whose only edge names
  the missing source \<open>n429\<close> fails the validation, which is no rate limit; yet the
  call waits 2000 ms and asks the provider again, and again after 4000 ms, before the
  error surfaces, and when the second answer is good the error never surfaces.  The
  same payload with the source called \<open>ghost\<close> surfaces after the first attempt, as
  does a provider error without 429; two rate-limit errors and then a good answer
  give the payload after 2000 and 4000 ms.
\<close>

theorem validation_failure_retried_as_rate_limit:
  "generateFlowFromScript sample_runtime n429_provider
       = \<lparr> calls = 3, delays = [2000, 4000],
           result = Inl (''Failed to generate flowchart: ''
                     @ ''Data integrity issue: Edge references a non-existent source node with ID ''
                     @ apostrophe @ ''n429'' @ apostrophe @ ''.'') \<rparr>
   \<and> generateFlowFromScript sample_runtime n429_then_good_provider
       = \<lparr> calls = 2, delays = [2000], result = Inr good_payload \<rparr>
   \<and> generateFlowFromScript sample_runtime offline_provider
       = \<lparr> calls = 1, delays = [], result = Inl ''Failed to generate flowchart: fetch failed'' \<rparr>
   \<and> generateFlowFromScript sample_runtime busy_provider
       = \<lparr> calls = 3, delays = [2000, 4000], result = Inr good_payload \<rparr>
   \<and> generateFlowFromScript sample_runtime dangling_provider
       = \<lparr> calls = 1, delays = [],
           result = Inl (''Failed to generate flowchart: ''
                     @ ''Data integrity issue: Edge references a non-existent source node with ID ''
                     @ apostrophe @ ''ghost'' @ apostrophe @ ''.'') \<rparr>"
proof -
  let ?m429 = "''Data integrity issue: Edge references a non-existent source node with ID ''
                   @ apostrophe @ ''n429'' @ apostrophe @ ''.''"
  let ?mghost = "''Data integrity issue: Edge references a non-existent source node with ID ''
                   @ apostrophe @ ''ghost'' @ apostrophe @ ''.''"
  have v: "validate sample_runtime n429_payload = Inl (Error ?m429)"
    by (simp add: validate_def n429_payload_def payload_def check_node_def check_edge_def
        node_types_def Let_def)
  have vg: "validate sample_runtime dangling_payload = Inl (Error ?mghost)"
    by (simp add: validate_def dangling_payload_def payload_def check_node_def check_edge_def
        node_types_def Let_def)
  have vgood: "validate sample_runtime good_payload = Inr good_payload"
    by (simp add: validate_def good_payload_def payload_def check_node_def check_edge_def
        node_types_def Let_def)
  have r: "isRateLimitError (Error ?m429)"
    by (simp add: isRateLimitError_def apostrophe_def starts_with_def)
  have rg: "\<not> isRateLimitError (Error ?mghost)"
    by (simp add: isRateLimitError_def apostrophe_def starts_with_def)
  have f: "finalErrorMessage sample_runtime (Error ?m429) = ?m429"
    by (simp add: finalErrorMessage_def match_braces_def apostrophe_def)
  have fg: "finalErrorMessage sample_runtime (Error ?mghost) = ?mghost"
    by (simp add: finalErrorMessage_def match_braces_def apostrophe_def)
  have t: "try_body sample_runtime (n429_provider i) = Inl (Error ?m429)" for i
    by (simp add: try_body_def n429_provider_def v)
  have g1: "generateFlowFromScript sample_runtime n429_provider
       = \<lparr> calls = 3, delays = [2000, 4000],
           result = Inl (''Failed to generate flowchart: '' @ ?m429) \<rparr>"
    by (simp only: generateFlowFromScript_cases t r f sum.case simp_thms if_False if_True)
  have t0: "try_body sample_runtime (n429_then_good_provider 0) = Inl (Error ?m429)"
    and t1: "try_body sample_runtime (n429_then_good_provider 1) = Inr good_payload"
    by (simp_all add: try_body_def n429_then_good_provider_def v vgood)
  have g2: "generateFlowFromScript sample_runtime n429_then_good_provider
       = \<lparr> calls = 2, delays = [2000], result = Inr good_payload \<rparr>"
    by (simp only: generateFlowFromScript_cases t0 t1 r sum.case simp_thms if_False if_True)
  have tg: "try_body sample_runtime (dangling_provider 0) = Inl (Error ?mghost)"
    by (simp add: try_body_def dangling_provider_def vg)
  have g3: "generateFlowFromScript sample_runtime dangling_provider
       = \<lparr> calls = 1, delays = [],
           result = Inl (''Failed to generate flowchart: '' @ ?mghost) \<rparr>"
    by (simp only: generateFlowFromScript_cases tg rg fg sum.case simp_thms if_False if_True)
  have n429: "\<not> str_includes ''fetch failed'' ''429''"
    by (simp add: starts_with_def)
  have g4: "generateFlowFromScript sample_runtime offline_provider
       = \<lparr> calls = 1, delays = [], result = Inl ''Failed to generate flowchart: fetch failed'' \<rparr>"
    using provider_error_surfaces [of offline_provider "''fetch failed''" sample_runtime] n429
    by (simp add: offline_provider_def finalErrorMessage_def match_braces_def)
  show ?thesis using g1 g2 g3 g4 rate_limit_then_success_example by simp
qed

lemma check_node_ok: "node_ok n \<Longrightarrow> check_node n = Inr (string_of (get (Some n) ''id''))"
  by (cases n) (simp_all add: node_ok_def check_node_def)

lemma check_node_bad: "\<not> node_ok n \<Longrightarrow> \<exists>m. check_node n = Inl (Error m)"
  by (auto simp: node_ok_def check_node_def)

lemma check_nodes_ok: "list_all node_ok ns \<Longrightarrow> check_nodes ns = Inr (declared_ids ns)"
  by (induction ns) (simp_all add: check_node_ok declared_ids_def)

lemma check_nodes_bad: "\<not> list_all node_ok ns \<Longrightarrow> \<exists>m. check_nodes ns = Inl (Error m)"
proof (induction ns)
  case Nil
  then show ?case by simp
next
  case (Cons n ns)
  show ?case
  proof (cases "node_ok n")
    case False
    then show ?thesis using check_node_bad [of n] by auto
  next
    case True
    then have "\<not> list_all node_ok ns" using Cons.prems by simp
    then show ?thesis using Cons.IH True by (auto simp: check_node_ok)
  qed
qed

lemma check_edge_ok: "edge_ok ids e \<Longrightarrow> check_edge ids e = None"
  by (cases e) (simp_all add: edge_ok_def check_edge_def)

lemma check_edge_bad: "\<not> edge_ok ids e \<Longrightarrow> \<exists>m. check_edge ids e = Some (Error m)"
  by (auto simp: edge_ok_def check_edge_def)

lemma check_edges_ok: "list_all (edge_ok ids) es \<Longrightarrow> check_edges ids es = None"
  by (induction es) (simp_all add: check_edge_ok)

lemma check_edges_bad:
  "\<not> list_all (edge_ok ids) es \<Longrightarrow> \<exists>m. check_edges ids es = Some (Error m)"
proof (induction es)
  case Nil
  then show ?case by simp
next
  case (Cons e es)
  show ?case
  proof (cases "edge_ok ids e")
    case False
    then show ?thesis using check_edge_bad [of ids e] by auto
  next
    case True
    then have "\<not> list_all (edge_ok ids) es" using Cons.prems by simp
    then show ?thesis using Cons.IH True by (auto simp: check_edge_ok)
  qed
qed

lemma validate_rejects:
  assumes fc: "get (Some pd) ''flowchart'' = Some fc"
    and ns: "get (Some fc) ''nodes'' = Some (JArr ns)"
    and es: "get (Some fc) ''edges'' = Some (JArr es)"
    and bad: "\<not> list_all node_ok ns \<or> \<not> list_all (edge_ok (declared_ids ns)) es"
  shows "\<exists>m. validate rt pd = Inl (Error m)"
proof -
  have nn: "pd \<noteq> JNull" using fc by auto
  show ?thesis
  proof (cases "falsy (Some fc) \<or> typeof (Some fc) \<noteq> ''object''
                \<or> \<not> isArray (get (Some pd) ''functions'')")
    case True
    then show ?thesis using nn fc ns es by (auto simp: validate_def Let_def)
  next
    case False
    show ?thesis
    proof (cases "list_all node_ok ns")
      case False
      then obtain m where "check_nodes ns = Inl (Error m)" using check_nodes_bad by blast
      then show ?thesis using nn fc ns es by (auto simp: validate_def Let_def)
    next
      case True
      then have c: "check_nodes ns = Inr (declared_ids ns)" by (rule check_nodes_ok)
      from True bad obtain m where "check_edges (declared_ids ns) es = Some (Error m)"
        using check_edges_bad by blast
      then show ?thesis using nn fc ns es c by (auto simp: validate_def Let_def)
    qed
  qed
qed

lemma validate_accepts:
  assumes fc: "get (Some pd) ''flowchart'' = Some fc"
    and ns: "get (Some fc) ''nodes'' = Some (JArr ns)"
    and es: "get (Some fc) ''edges'' = Some (JArr es)"
    and fs: "isArray (get (Some pd) ''functions'')"
    and ok: "list_all node_ok ns" "list_all (edge_ok (declared_ids ns)) es"
  shows "validate rt pd = Inr pd"
proof -
  have nn: "pd \<noteq> JNull" using fc by auto
  have o: "\<not> falsy (Some fc)" "typeof (Some fc) = ''object''"
    using ns by (cases fc; simp)+
  show ?thesis
    using nn fc ns es fs o check_nodes_ok [OF ok(1)] check_edges_ok [OF ok(2)]
    by (simp add: validate_def Let_def)
qed

text \<open>
  C1, as the code has it.  For a payload whose flowchart has a node array and an edge
  array, in which some node's id, label or type is not a string or its type is not
  one of the four, or some edge's source or target is not a string or is not a
  declared node id: the validation throws an \<open>Error\<close>.  When that is the first
  attempt's payload and the error's message does not contain 429, the call throws
  after that one attempt with no delay, and \<open>handleAnalyzeScript\<close> on a script that
  is not blank leaves \<open>flowData\<close> null and stores the message.
\<close>

theorem invalid_payload_rejected:
  assumes "get (Some pd) ''flowchart'' = Some fc"
    and "get (Some fc) ''nodes'' = Some (JArr ns)"
    and "get (Some fc) ''edges'' = Some (JArr es)"
    and "\<not> list_all node_ok ns \<or> \<not> list_all (edge_ok (declared_ids ns)) es"
  shows "\<exists>m. validate rt pd = Inl (Error m)
       \<and> (provider 0 = Parsed pd \<and> \<not> str_includes m ''429'' \<longrightarrow>
            generateFlowFromScript rt provider
              = \<lparr> calls = 1, delays = [],
                  result = Inl (''Failed to generate flowchart: '' @ finalErrorMessage rt (Error m)) \<rparr>
          \<and> (\<not> list_all is_space (script st) \<longrightarrow>
                flowData (handleAnalyzeScript rt provider st) = None
              \<and> error (handleAnalyzeScript rt provider st)
                  = Some (''Failed to generate flowchart: '' @ finalErrorMessage rt (Error m))))"
proof -
  obtain m where m: "validate rt pd = Inl (Error m)"
    using validate_rejects [OF assms] by blast
  have g: "generateFlowFromScript rt provider
              = \<lparr> calls = 1, delays = [],
                  result = Inl (''Failed to generate flowchart: '' @ finalErrorMessage rt (Error m)) \<rparr>"
    if "provider 0 = Parsed pd" and "\<not> str_includes m ''429''"
    using that m by (simp add: generateFlowFromScript_cases try_body_def isRateLimitError_def)
  have h: "flowData (handleAnalyzeScript rt provider st) = None
         \<and> error (handleAnalyzeScript rt provider st)
             = Some (''Failed to generate flowchart: '' @ finalErrorMessage rt (Error m))"
    if "provider 0 = Parsed pd" and "\<not> str_includes m ''429''"
      and "\<not> list_all is_space (script st)"
    using g [OF that(1,2)] that(3) by (simp add: handleAnalyzeScript_def Let_def)
  show ?thesis using m g h by blast
qed

theorem invalid_payload_rejected_witness:
  "get (Some dangling_payload) ''flowchart''
     = Some (JObj [(''nodes'', JArr [JObj [(''id'', JStr ''n1''), (''label'', JStr ''Begin''),
                                           (''type'', JStr ''start'')]]),
                   (''edges'', JArr [JObj [(''source'', JStr ''ghost''), (''target'', JStr ''n1'')]])])
   \<and> \<not> list_all (edge_ok (declared_ids [JObj [(''id'', JStr ''n1''), (''label'', JStr ''Begin''),
                                                  (''type'', JStr ''start'')]]))
           [JObj [(''source'', JStr ''ghost''), (''target'', JStr ''n1'')]]
   \<and> dangling_provider 0 = Parsed dangling_payload
   \<and> \<not> list_all is_space (script sample_app)
   \<and> validate sample_runtime dangling_payload
       = Inl (Error (''Data integrity issue: Edge references a non-existent source node with ID ''
                     @ apostrophe @ ''ghost'' @ apostrophe @ ''.''))
   \<and> generateFlowFromScript sample_runtime dangling_provider
       = \<lparr> calls = 1, delays = [],
           result = Inl (''Failed to generate flowchart: ''
                     @ ''Data integrity issue: Edge references a non-existent source node with ID ''
                     @ apostrophe @ ''ghost'' @ apostrophe @ ''.'') \<rparr>
   \<and> flowData (handleAnalyzeScript sample_runtime dangling_provider sample_app) = None"
proof -
  let ?n = "JObj [(''id'', JStr ''n1''), (''label'', JStr ''Begin''), (''type'', JStr ''start'')]"
  let ?e = "JObj [(''source'', JStr ''ghost''), (''target'', JStr ''n1'')]"
  let ?fc = "JObj [(''nodes'', JArr [?n]), (''edges'', JArr [?e])]"
  let ?msg = "''Data integrity issue: Edge references a non-existent source node with ID ''
                     @ apostrophe @ ''ghost'' @ apostrophe @ ''.''"
  have a1: "get (Some dangling_payload) ''flowchart'' = Some ?fc"
    by (simp add: dangling_payload_def payload_def)
  have a2: "get (Some ?fc) ''nodes'' = Some (JArr [?n])" by simp
  have a3: "get (Some ?fc) ''edges'' = Some (JArr [?e])" by simp
  have a4: "\<not> list_all (edge_ok (declared_ids [?n])) [?e]"
    by (simp add: edge_ok_def declared_ids_def)
  have a4': "\<not> list_all node_ok [?n] \<or> \<not> list_all (edge_ok (declared_ids [?n])) [?e]"
    using a4 by simp
  have p: "dangling_provider 0 = Parsed dangling_payload"
    by (simp add: dangling_provider_def)
  have s: "\<not> list_all is_space (script sample_app)"
    by (simp add: sample_app_def is_space_def)
  have v: "validate sample_runtime dangling_payload = Inl (Error ?msg)"
    by (simp add: validate_def dangling_payload_def payload_def check_node_def check_edge_def
        node_types_def Let_def)
  have n429: "\<not> str_includes ?msg ''429''"
    by (simp add: apostrophe_def starts_with_def)
  have f: "finalErrorMessage sample_runtime (Error ?msg) = ?msg"
    by (simp add: finalErrorMessage_def match_braces_def apostrophe_def)
  from invalid_payload_rejected [OF a1 a2 a3 a4', of sample_runtime dangling_provider sample_app]
  obtain m where m: "validate sample_runtime dangling_payload = Inl (Error m)"
    and r: "dangling_provider 0 = Parsed dangling_payload \<and> \<not> str_includes m ''429'' \<longrightarrow>
            generateFlowFromScript sample_runtime dangling_provider
              = \<lparr> calls = 1, delays = [],
                  result = Inl (''Failed to generate flowchart: ''
                            @ finalErrorMessage sample_runtime (Error m)) \<rparr>
          \<and> (\<not> list_all is_space (script sample_app) \<longrightarrow>
                flowData (handleAnalyzeScript sample_runtime dangling_provider sample_app) = None
              \<and> error (handleAnalyzeScript sample_runtime dangling_provider sample_app)
                  = Some (''Failed to generate flowchart: ''
                          @ finalErrorMessage sample_runtime (Error m)))"
    by blast
  have mm: "m = ?msg" using m v by simp
  have g: "generateFlowFromScript sample_runtime dangling_provider
       = \<lparr> calls = 1, delays = [], result = Inl (''Failed to generate flowchart: '' @ ?msg) \<rparr>"
    and fd: "flowData (handleAnalyzeScript sample_runtime dangling_provider sample_app) = None"
    using r p n429 s f unfolding mm by simp_all
  show ?thesis using a1 a4 p s v g fd by simp
qed

text \<open>
  C1 as stated fails: a node whose id and label are empty strings passes the
  validation, the call returns the payload and \<open>flowData\<close> is set.
\<close>

theorem blank_node_accepted:
  "elements (get (get (Some blank_node_payload) ''flowchart'') ''nodes'')
     = [JObj [(''id'', JStr []), (''label'', JStr []), (''type'', JStr ''process'')]]
   \<and> generateFlowFromScript sample_runtime blank_node_provider
       = \<lparr> calls = 1, delays = [], result = Inr blank_node_payload \<rparr>
   \<and> flowData (handleAnalyzeScript sample_runtime blank_node_provider sample_app)
       = get (Some blank_node_payload) ''flowchart''
   \<and> flowData (handleAnalyzeScript sample_runtime blank_node_provider sample_app) \<noteq> None"
proof -
  have v: "validate sample_runtime blank_node_payload = Inr blank_node_payload"
    by (simp add: validate_def blank_node_payload_def payload_def check_node_def
        node_types_def Let_def)
  have g: "generateFlowFromScript sample_runtime blank_node_provider
       = \<lparr> calls = 1, delays = [], result = Inr blank_node_payload \<rparr>"
    by (simp add: generateFlowFromScript_cases try_body_def blank_node_provider_def v)
  have s: "\<not> list_all is_space (script sample_app)"
    by (simp add: sample_app_def is_space_def)
  have fd: "flowData (handleAnalyzeScript sample_runtime blank_node_provider sample_app)
       = get (Some blank_node_payload) ''flowchart''"
    using s by (simp add: handleAnalyzeScript_def g Let_def)
  have ne: "get (Some blank_node_payload) ''flowchart'' \<noteq> None"
    by (simp add: blank_node_payload_def payload_def)
  have el: "elements (get (get (Some blank_node_payload) ''flowchart'') ''nodes'')
     = [JObj [(''id'', JStr []), (''label'', JStr []), (''type'', JStr ''process'')]]"
    by (simp add: blank_node_payload_def payload_def)
  show ?thesis using el g fd ne by simp
qed

section \<open>Theorems: word wrap\<close>

text \<open>
  What the loop keeps: the tspans are whole words joined by single spaces, and
  together they hold the words up to the first empty piece of the split.
\<close>

lemma wrap_words_groups:
  "\<exists>groups. wrap_words msr width words line finished (join_sp line)
              = finished @ map join_sp groups
          \<and> concat groups = line @ takeWhile (\<lambda>w. w \<noteq> []) words"
proof (induction words arbitrary: line finished)
  case Nil
  have "wrap_words msr width [] line finished (join_sp line) = finished @ map join_sp [line]"
    by simp
  then show ?case by (metis append_Nil2 concat.simps list.simps(8) takeWhile.simps(1) list.simps(9))
next
  case (Cons word words)
  show ?case
  proof (cases "word = []")
    case True
    have "wrap_words msr width (word # words) line finished (join_sp line)
            = finished @ map join_sp [line]"
      using True by simp
    moreover have "concat [line] = line @ takeWhile (\<lambda>w. w \<noteq> []) (word # words)"
      using True by simp
    ultimately show ?thesis by blast
  next
    case False
    show ?thesis
    proof (cases "msr (join_sp (line @ [word])) > width \<and> length (line @ [word]) > 1")
      case True
      obtain groups where g:
          "wrap_words msr width words [word] (finished @ [join_sp line]) (join_sp [word])
             = (finished @ [join_sp line]) @ map join_sp groups"
          "concat groups = [word] @ takeWhile (\<lambda>w. w \<noteq> []) words"
        using Cons.IH [of "[word]" "finished @ [join_sp line]"] by blast
      have "wrap_words msr width (word # words) line finished (join_sp line)
              = finished @ map join_sp (line # groups)"
        using False True g(1) by simp
      moreover have "concat (line # groups) = line @ takeWhile (\<lambda>w. w \<noteq> []) (word # words)"
        using False g(2) by simp
      ultimately show ?thesis by blast
    next
      case nobreak: False
      obtain groups where g:
          "wrap_words msr width words (line @ [word]) finished (join_sp (line @ [word]))
             = finished @ map join_sp groups"
          "concat groups = (line @ [word]) @ takeWhile (\<lambda>w. w \<noteq> []) words"
        using Cons.IH [of "line @ [word]" finished] by blast
      have "wrap_words msr width (word # words) line finished (join_sp line)
              = finished @ map join_sp groups"
        using False nobreak g(1) by auto
      moreover have "concat groups = line @ takeWhile (\<lambda>w. w \<noteq> []) (word # words)"
        using False g(2) by simp
      ultimately show ?thesis by blast
    qed
  qed
qed

text \<open>
  A label that does not begin with white space keeps every word, and a text whose
  growing line never measures more than the width stays on one line.
\<close>

lemma split_ws_only_last_empty:
  "cur \<noteq> [] \<or> (s \<noteq> [] \<and> \<not> is_space (hd s)) \<Longrightarrow>
     takeWhile (\<lambda>w. w \<noteq> []) (split_ws cur s) = filter (\<lambda>w. w \<noteq> []) (split_ws cur s)"
proof (induction cur s rule: split_ws.induct)
  case (1 cur)
  then show ?case by simp
next
  case (2 cur c cs)
  show ?case
  proof (cases "is_space c")
    case False
    then show ?thesis using 2 by simp
  next
    case True
    then have cur: "cur \<noteq> []" using "2.prems" by auto
    let ?t = "dropWhile is_space cs"
    show ?thesis
    proof (cases "?t = []")
      case True
      have "split_ws [] ?t = [[]]" unfolding True by simp
      then show ?thesis using \<open>is_space c\<close> cur by simp
    next
      case False
      then have "\<not> is_space (hd ?t)" by (simp add: hd_dropWhile)
      then have "takeWhile (\<lambda>w. w \<noteq> []) (split_ws [] ?t) = filter (\<lambda>w. w \<noteq> []) (split_ws [] ?t)"
        using "2.IH"(1) [OF \<open>is_space c\<close>] False by simp
      then show ?thesis using \<open>is_space c\<close> cur by simp
    qed
  qed
qed

lemma wrapText_keeps_words:
  assumes "label \<noteq> []" and "\<not> is_space (hd label)"
  shows "\<exists>groups. wrapText msr width label = map join_sp groups
               \<and> concat groups = label_words label"
proof -
  have t: "takeWhile (\<lambda>w. w \<noteq> []) (split_whitespace label) = label_words label"
    using split_ws_only_last_empty [of "[]" label] assms
    by (simp add: split_whitespace_def label_words_def)
  obtain groups where
      "wrap_words msr width (split_whitespace label) [] [] (join_sp [])
         = [] @ map join_sp groups"
      "concat groups = [] @ takeWhile (\<lambda>w. w \<noteq> []) (split_whitespace label)"
    using wrap_words_groups [of msr width "split_whitespace label" "[]" "[]"] by blast
  then show ?thesis using t by (auto simp: wrapText_def)
qed

lemma wrap_words_one_line:
  assumes "\<forall>k \<le> length words. msr (join_sp (line @ take k words)) \<le> width"
  shows "wrap_words msr width words line finished (join_sp line)
           = finished @ [join_sp (line @ takeWhile (\<lambda>w. w \<noteq> []) words)]"
  using assms
proof (induction words arbitrary: line)
  case Nil
  then show ?case by simp
next
  case (Cons word words)
  have fit: "msr (join_sp (line @ [word])) \<le> width"
    using Cons.prems [rule_format, of 1] by simp
  have rest: "\<forall>k \<le> length words. msr (join_sp ((line @ [word]) @ take k words)) \<le> width"
  proof (intro allI impI)
    fix k assume "k \<le> length words"
    then show "msr (join_sp ((line @ [word]) @ take k words)) \<le> width"
      using Cons.prems [rule_format, of "Suc k"] by simp
  qed
  show ?case
    using fit Cons.IH [OF rest] by simp
qed

lemma wrapText_example:
  "wrapText sample_measure (NODE_WIDTH - 25) ''Search the cell'' = [''Search the cell'']
   \<and> wrapText sample_measure (NODE_WIDTH - 25) ''Search the dungeon cell''
       = [''Search the'', ''dungeon cell'']"
  by (simp add: wrapText_def split_whitespace_def is_space_def sample_measure_def NODE_WIDTH_def)

text \<open>
  C4.  A label that begins with white space loses all its words: the split yields an
  empty first piece, which ends the loop before any word is placed, so the only tspan
  stays empty, whatever the text measures.
\<close>

theorem wrapText_drops_words_after_leading_space:
  "split_whitespace '' Start game'' = [[], ''Start'', ''game'']
   \<and> label_words '' Start game'' = [''Start'', ''game'']
   \<and> wrapText msr (NODE_WIDTH - 25) '' Start game'' = [[]]
   \<and> concat (map label_words (wrapText msr (NODE_WIDTH - 25) '' Start game'')) = []
   \<and> concat (map label_words (wrapText msr (NODE_WIDTH - 25) '' Start game''))
       \<noteq> label_words '' Start game''"
proof -
  have s: "split_whitespace '' Start game'' = [[], ''Start'', ''game'']"
    by (simp add: split_whitespace_def is_space_def)
  have e: "split_whitespace [] = [[]]"
    by (simp add: split_whitespace_def)
  show ?thesis by (simp add: s e wrapText_def label_words_def)
qed

end
